theory Spec2Isabelle
  imports Main "HOL-Library.AList"
begin

section \<open>WoRMS taxonomic matching: a shallow embedding of \<open>WoRMS_v3_matching.py\<close>\<close>

text \<open>
  The theory follows \<^verbatim>\<open>src-v3/taxonomic_assignment/WoRMS_v3_matching.py\<close>.

  Conventions of the embedding.
  \<^item> A Python \<open>str\<close> is a \<open>string\<close>; a \<open>char\<close> stands for the code point of the same
    number, so the strings covered are those of code points below 256 (Latin-1). The
    character classes below (\<open>str.isspace\<close>, \<open>str.isdigit\<close>, the regular expression classes
    \<open>\s\<close> and \<open>\d\<close>, \<open>str.lower\<close>) are Python's, restricted to that range.
  \<^item> A cell of the column \<open>verbatimIdentification\<close>, and a value stored in a dictionary, is a
    \<open>pyval\<close>: \<open>None\<close>, the missing value \<open>NaN\<close>, or a string.
  \<^item> The table \<open>occurrence_df\<close> is its rows together with the dtype of the column
    \<open>verbatimIdentification\<close>, on which the accessor \<open>.str\<close> depends.
  \<^item> A Python \<open>dict\<close> with string keys is an association list in insertion order
    (\<open>AList.update\<close> is item assignment, \<open>map_of\<close> is lookup).
  \<^item> The remote service (\<open>pyworms\<close>), the success of the two process pools and the iteration
    order of a Python \<open>set\<close> are the fields of an environment record.
\<close>

subsection \<open>Python strings\<close>

datatype pyval = PyNone | PyNaN | PyStr string

text \<open>\<open>pd.isna\<close> on a scalar.\<close>

definition isna :: "pyval \<Rightarrow> bool" where
  "isna v = (v = PyNone \<or> v = PyNaN)"

text \<open>\<open>str(v)\<close>.\<close>

fun py_str :: "pyval \<Rightarrow> string" where
  "py_str PyNone = ''None''"
| "py_str PyNaN = ''nan''"
| "py_str (PyStr s) = s"

text \<open>\<open>str.isspace\<close> of one character, which is also the class \<open>\s\<close> of \<open>re\<close> on \<open>str\<close>:
  TAB, LF, VT, FF, CR, the separators 0x1C to 0x1F, SPACE, NEL (0x85) and NBSP (0xA0).\<close>

definition py_isspace :: "char \<Rightarrow> bool" where
  "py_isspace c =
     (c \<in> set [CHR 0x09, CHR 0x0A, CHR 0x0B, CHR 0x0C, CHR 0x0D, CHR 0x1C, CHR 0x1D,
                CHR 0x1E, CHR 0x1F, CHR 0x20, CHR 0x85, CHR 0xA0])"

text \<open>The class \<open>\d\<close> of \<open>re\<close> on \<open>str\<close> (decimal digits): below 256 these are \<open>0\<close> to \<open>9\<close>.\<close>

definition re_digit :: "char \<Rightarrow> bool" where
  "re_digit c = (c \<in> set ''0123456789'')"

text \<open>\<open>str.isdigit\<close> of one character: the decimal digits and the superscripts
  two, three (0xB2, 0xB3) and one (0xB9).\<close>

definition py_isdigit :: "char \<Rightarrow> bool" where
  "py_isdigit c = (re_digit c \<or> c \<in> set [CHR 0xB2, CHR 0xB3, CHR 0xB9])"

text \<open>\<open>str.lower\<close>: \<open>A\<close> to \<open>Z\<close>, and 0xC0 to 0xDE except the multiplication sign 0xD7,
  move up by 32 (0x20); every other character stays.\<close>

definition upper_case_letters :: "(char \<times> char) list" where
  "upper_case_letters =
     zip ''ABCDEFGHIJKLMNOPQRSTUVWXYZ'' ''abcdefghijklmnopqrstuvwxyz'' @
     zip [CHR 0xC0, CHR 0xC1, CHR 0xC2, CHR 0xC3, CHR 0xC4, CHR 0xC5, CHR 0xC6, CHR 0xC7,
          CHR 0xC8, CHR 0xC9, CHR 0xCA, CHR 0xCB, CHR 0xCC, CHR 0xCD, CHR 0xCE, CHR 0xCF,
          CHR 0xD0, CHR 0xD1, CHR 0xD2, CHR 0xD3, CHR 0xD4, CHR 0xD5, CHR 0xD6,
          CHR 0xD8, CHR 0xD9, CHR 0xDA, CHR 0xDB, CHR 0xDC, CHR 0xDD, CHR 0xDE]
         [CHR 0xE0, CHR 0xE1, CHR 0xE2, CHR 0xE3, CHR 0xE4, CHR 0xE5, CHR 0xE6, CHR 0xE7,
          CHR 0xE8, CHR 0xE9, CHR 0xEA, CHR 0xEB, CHR 0xEC, CHR 0xED, CHR 0xEE, CHR 0xEF,
          CHR 0xF0, CHR 0xF1, CHR 0xF2, CHR 0xF3, CHR 0xF4, CHR 0xF5, CHR 0xF6,
          CHR 0xF8, CHR 0xF9, CHR 0xFA, CHR 0xFB, CHR 0xFC, CHR 0xFD, CHR 0xFE]"

definition lower_char :: "char \<Rightarrow> char" where
  "lower_char c = (case map_of upper_case_letters c of None \<Rightarrow> c | Some l \<Rightarrow> l)"

definition lower :: "string \<Rightarrow> string" where
  "lower s = map lower_char s"

text \<open>\<open>s.strip()\<close> and \<open>s.rstrip(';')\<close>.\<close>

definition strip :: "string \<Rightarrow> string" where
  "strip s = rev (dropWhile py_isspace (rev (dropWhile py_isspace s)))"

definition rstrip_semicolon :: "string \<Rightarrow> string" where
  "rstrip_semicolon s = rev (dropWhile (\<lambda>c. c = CHR '';'') (rev s))"

fun startswith :: "string \<Rightarrow> string \<Rightarrow> bool" where
  "startswith s [] = True"
| "startswith [] (p # ps) = False"
| "startswith (c # cs) (p # ps) = (c = p \<and> startswith cs ps)"

text \<open>\<open>sub in s\<close> for strings.\<close>

fun contains :: "string \<Rightarrow> string \<Rightarrow> bool" where
  "contains [] sub = (sub = [])"
| "contains (c # cs) sub = (startswith (c # cs) sub \<or> contains cs sub)"

text \<open>\<open>s.replace(old, new)\<close>: the occurrences of \<open>old\<close> are found from the left and do not
  overlap. With an empty \<open>old\<close> Python puts \<open>new\<close> before every character and at the end.\<close>

function replace :: "string \<Rightarrow> string \<Rightarrow> string \<Rightarrow> string" where
  "replace s [] new = new @ concat (map (\<lambda>c. c # new) s)"
| "replace [] (p # ps) new = []"
| "replace (c # cs) (p # ps) new =
     (if startswith (c # cs) (p # ps)
      then new @ replace (drop (length (p # ps)) (c # cs)) (p # ps) new
      else c # replace cs (p # ps) new)"
  by pat_completeness auto
termination
  by (relation "measure (\<lambda>(s, old, new). length s)") auto

text \<open>\<open>s.split(sep)\<close> for a separator of one character: never an empty list.\<close>

fun split :: "string \<Rightarrow> char \<Rightarrow> string list" where
  "split [] sep = [[]]"
| "split (c # cs) sep =
     (if c = sep then [] # split cs sep
      else (case split cs sep of
              [] \<Rightarrow> [[c]]
            | w # ws \<Rightarrow> (c # w) # ws))"

text \<open>\<open>sep.join(xs)\<close>.\<close>

fun join :: "string \<Rightarrow> string list \<Rightarrow> string" where
  "join sep [] = []"
| "join sep [x] = x"
| "join sep (x # y # ys) = x @ sep @ join sep (y # ys)"

text \<open>\<open>re.sub(r'\d+', '', s)\<close>: every maximal run of digits goes, so every digit goes.\<close>

definition re_sub_digits :: "string \<Rightarrow> string" where
  "re_sub_digits s = filter (\<lambda>c. \<not> re_digit c) s"

text \<open>\<open>re.sub(r'\s+', ' ', s)\<close>: every maximal run of whitespace becomes one space.\<close>

function re_sub_spaces :: "string \<Rightarrow> string" where
  "re_sub_spaces [] = []"
| "re_sub_spaces (c # cs) =
     (if py_isspace c then CHR '' '' # re_sub_spaces (dropWhile py_isspace cs)
      else c # re_sub_spaces cs)"
  by pat_completeness auto
termination
  by (relation "measure length") (auto simp: length_dropWhile_le le_imp_less_Suc)

subsection \<open>The lineage normalizer, \<open>parse_semicolon_taxonomy\<close>\<close>

text \<open>The body of the loop over the pieces of the split string: \<open>None\<close> is \<open>continue\<close> or a
  name that is not appended, \<open>Some name\<close> is the name appended.\<close>

definition clean_name :: "string \<Rightarrow> string option" where
  "clean_name name0 =
     (let name1 = strip name0
      in if name1 = [] \<or> lower name1 = ''unassigned'' then None
         else
           let name2 = replace (replace name1 '' sp.'' '''') '' spp.'' '''';
               name3 = (if list_ex py_isdigit name2 then re_sub_digits name2 else name2);
               name4 = (if contains name3 ''  '' then re_sub_spaces name3 else name3);
               name5 = strip name4
           in if name5 \<noteq> [] \<and> length name5 > 1 then Some name5 else None)"

definition parse_semicolon_taxonomy :: "pyval \<Rightarrow> string list" where
  "parse_semicolon_taxonomy tax_string =
     (if isna tax_string \<or> strip (py_str tax_string) = [] then []
      else
        let cleaned_string =
              replace (replace (replace (py_str tax_string) ''_'' '' '') ''-'' '' '') ''/'' '' ''
        in List.map_filter clean_name (split cleaned_string CHR '';''))"

subsection \<open>Dictionaries, records of the service, the environment\<close>

type_synonym dict = "(string \<times> pyval) list"

text \<open>\<open>d.get(k)\<close> and \<open>k in d\<close>.\<close>

definition dget :: "dict \<Rightarrow> string \<Rightarrow> pyval" where
  "dget d k = (case map_of d k of None \<Rightarrow> PyNone | Some v \<Rightarrow> v)"

definition has_key :: "dict \<Rightarrow> string \<Rightarrow> bool" where
  "has_key d k = (map_of d k \<noteq> None)"

definition DWC_RANKS_STD :: "string list" where
  "DWC_RANKS_STD =
     [''kingdom'', ''phylum'', ''class'', ''order'', ''family'', ''genus'', ''species'']"

text \<open>The exceptions of the model: a failure of a call of the remote service (any exception
  of \<open>pyworms\<close>), the \<open>IndexError\<close> of \<open>chunk[j]\<close>, a failure of \<open>multiprocess.Pool\<close>, and the
  \<open>AttributeError\<close> of the accessor \<open>.str\<close> on a column that is not of strings.\<close>

datatype exn = ServiceError | IndexError | PoolError | AttributeError

text \<open>
  The collaborators of a run.
  \<^item> \<open>aphiaRecordByAphiaID\<close>: the record of an identifier; \<open>None\<close> stands for any answer that
    is not a dictionary.
  \<^item> \<open>aphiaRecordsByMatchNames\<close>: for a list of names, a list of candidate lists; a candidate
    is a dictionary or \<open>None\<close>, and an empty candidate list stands for any falsy answer.
  \<^item> \<open>pool_fails_stage1\<close>, \<open>pool_fails_stage2\<close>: whether creating or using the process pool of
    the stage raises.
  \<^item> \<open>set_order\<close>: the order in which \<open>list(set(...))\<close> lists the elements of a sequence.
  The values of the records are strings or \<open>None\<close>, and the identifiers are integers;
  answers of other shapes are outside the model.
\<close>

record env =
  aphiaRecordByAphiaID :: "int \<Rightarrow> exn + dict option"
  aphiaRecordsByMatchNames :: "string list \<Rightarrow> exn + dict option list list"
  pool_fails_stage1 :: bool
  pool_fails_stage2 :: bool
  set_order :: "string list \<Rightarrow> string list"

text \<open>The entries of \<open>params_dict\<close> that the function reads. \<open>None\<close> is a missing key (or, for
  the assays to skip, the value \<open>None\<close>); a missing dictionary is the empty one. An entry of
  \<open>assay_rank_info\<close> holds the value of \<open>'max_depth'\<close>, or \<open>None\<close> when that key is missing.\<close>

record params =
  taxonomic_api_source :: "string option"
  assays_to_skip_species_match :: "string list option"
  pr2_worms_dict :: "(string \<times> int) list"
  assay_rank_info :: "(string \<times> int option) list"

definition api_source_of :: "params \<Rightarrow> string" where
  "api_source_of p = (case taxonomic_api_source p of None \<Rightarrow> ''WoRMS'' | Some s \<Rightarrow> s)"

definition assays_to_skip_species :: "params \<Rightarrow> string list" where
  "assays_to_skip_species p =
     (case assays_to_skip_species_match p of None \<Rightarrow> [] | Some xs \<Rightarrow> xs)"

text \<open>\<open>assay_rank_info.get(assay_name, {}).get('max_depth', 99)\<close>.\<close>

definition max_depth_for_assay :: "params \<Rightarrow> string \<Rightarrow> int" where
  "max_depth_for_assay p assay =
     (case map_of (assay_rank_info p) assay of
        None \<Rightarrow> 99
      | Some info \<Rightarrow> (case info of None \<Rightarrow> 99 | Some d \<Rightarrow> d))"

text \<open>Decimal formatting of an integer inside an f-string.\<close>

function str_nat :: "nat \<Rightarrow> string" where
  "str_nat n =
     (if n < 10 then [''0123456789'' ! n]
      else str_nat (n div 10) @ [''0123456789'' ! (n mod 10)])"
  by pat_completeness auto
termination
  by (relation "measure id") auto

declare str_nat.simps [simp del]

definition str_int :: "int \<Rightarrow> string" where
  "str_int i = (if i < 0 then CHR ''-'' # str_nat (nat (- i)) else str_nat (nat i))"

subsection \<open>The workers\<close>

text \<open>The fields copied from a record of the service: name, identifier and rank, then one
  entry for each standard rank.\<close>

definition rank_fields :: "dict \<Rightarrow> dict \<Rightarrow> dict" where
  "rank_fields record result =
     fold (\<lambda>rank_std res. AList.update rank_std (dget record (lower rank_std)) res)
       DWC_RANKS_STD result"

definition get_worms_classification_by_id_worker :: "env \<Rightarrow> int \<Rightarrow> string \<Rightarrow> int \<times> dict" where
  "get_worms_classification_by_id_worker e aphia_id_to_check api_source_for_record =
     (let failure =
            (aphia_id_to_check,
             [(''match_type_debug'', PyStr (''Failure_AphiaID_'' @ str_int aphia_id_to_check))])
      in case aphiaRecordByAphiaID e aphia_id_to_check of
           Inl ex \<Rightarrow> failure
         | Inr None \<Rightarrow> failure
         | Inr (Some record) \<Rightarrow>
             if record \<noteq> [] \<and> dget record ''status'' = PyStr ''accepted''
             then (aphia_id_to_check,
                   rank_fields record
                     [(''scientificName'', dget record ''scientificname''),
                      (''scientificNameID'', dget record ''lsid''),
                      (''taxonRank'', dget record ''rank''),
                      (''nameAccordingTo'', PyStr api_source_for_record),
                      (''match_type_debug'',
                         PyStr (''Success_AphiaID_'' @ str_int aphia_id_to_check))])
             else failure)"

text \<open>The first candidate of a list that is a non-empty dictionary with status
  \<open>accepted\<close>.\<close>

fun first_accepted :: "dict option list \<Rightarrow> dict option" where
  "first_accepted [] = None"
| "first_accepted (None # ms) = first_accepted ms"
| "first_accepted (Some match # ms) =
     (if match \<noteq> [] \<and> dget match ''status'' = PyStr ''accepted'' then Some match
      else first_accepted ms)"

definition batch_res :: "dict \<Rightarrow> dict" where
  "batch_res match =
     rank_fields match
       [(''scientificName'', dget match ''scientificname''),
        (''scientificNameID'', dget match ''lsid''),
        (''taxonRank'', dget match ''rank'')]"

type_synonym lookup = "string \<rightharpoonup> dict"

text \<open>The loop \<open>for j, name_list in enumerate(batch_results_raw)\<close>, from index \<open>j\<close> on. It
  returns the table and, when \<open>chunk[j]\<close> was out of range, the exception that ended the loop
  (the service answered with more candidate lists than names).\<close>

fun process_matches ::
  "string list \<Rightarrow> nat \<Rightarrow> dict option list list \<Rightarrow> lookup \<Rightarrow> lookup \<times> exn option" where
  "process_matches chunk j [] acc = (acc, None)"
| "process_matches chunk j (name_list # rest) acc =
     (case first_accepted name_list of
        None \<Rightarrow> process_matches chunk (Suc j) rest acc
      | Some match \<Rightarrow>
          if j < length chunk
          then process_matches chunk (Suc j) rest (acc(chunk ! j \<mapsto> batch_res match))
          else (acc, Some IndexError))"

text \<open>\<open>get_worms_batch_worker\<close>: any exception, of the call or of the loop, gives the empty
  table for the whole batch.\<close>

definition get_worms_batch_worker :: "env \<Rightarrow> nat \<times> string list \<Rightarrow> nat \<times> lookup" where
  "get_worms_batch_worker e batch_info =
     (case batch_info of (batch_num, chunk) \<Rightarrow>
        (case aphiaRecordsByMatchNames e chunk of
           Inl ex \<Rightarrow> (batch_num, Map.empty)
         | Inr batch_results_raw \<Rightarrow>
             (case process_matches chunk 0 batch_results_raw Map.empty of
                (batch_results, None) \<Rightarrow> (batch_num, batch_results)
              | (batch_results, Some ex) \<Rightarrow> (batch_num, Map.empty))))"

subsection \<open>The dataset and its keys\<close>

text \<open>A row of \<open>occurrence_df\<close>: the two columns the function reads.\<close>

record occurrence =
  verbatimIdentification :: pyval
  assay_name :: string

text \<open>The dtype of the column \<open>verbatimIdentification\<close>. A column that holds a string or \<open>None\<close>
  is of dtype \<open>object\<close>; a column that holds only \<open>NaN\<close>, or no row, is of dtype \<open>object\<close> or
  \<open>float64\<close>, as the caller built it (\<open>read_csv\<close> makes a column of empty cells \<open>float64\<close>).
  The accessor \<open>Series.str\<close> works on a column of dtype \<open>object\<close> whose values are strings or
  missing, and raises \<open>AttributeError\<close> on a column of dtype \<open>float64\<close>.\<close>

datatype dtype = object_dtype | float64_dtype

record dataframe =
  verbatimIdentification_dtype :: dtype
  rows :: "occurrence list"

type_synonym key = "pyval \<times> string"

text \<open>A value of the column \<open>_map_key\<close>: the string \<open>'IS_TRULY_EMPTY'\<close> or a tuple.\<close>

datatype map_key = IS_TRULY_EMPTY | Key key

type_synonym cache = "map_key \<rightharpoonup> dict"

text \<open>\<open>empty_verbatim_mask\<close> for one row. On a missing value \<open>.str.strip()\<close> is missing, and
  a comparison with a missing value is false.\<close>

definition empty_verbatim_mask :: "occurrence \<Rightarrow> bool" where
  "empty_verbatim_mask r =
     (isna (verbatimIdentification r) \<or>
      (case verbatimIdentification r of
         PyStr s \<Rightarrow> strip s = [] \<or> lower (strip s) = ''unassigned''
       | _ \<Rightarrow> False))"

definition map_key_of :: "occurrence \<Rightarrow> map_key" where
  "map_key_of r =
     (if empty_verbatim_mask r then IS_TRULY_EMPTY
      else Key (verbatimIdentification r, assay_name r))"

text \<open>\<open>Series.drop_duplicates()\<close> keeps the first of equal values.\<close>

definition drop_duplicates :: "'a list \<Rightarrow> 'a list" where
  "drop_duplicates xs = rev (remdups (rev xs))"

definition unique_tuples :: "occurrence list \<Rightarrow> key list" where
  "unique_tuples df =
     drop_duplicates
       (map (\<lambda>r. (verbatimIdentification r, assay_name r))
          (filter (\<lambda>r. \<not> empty_verbatim_mask r) df))"

subsection \<open>The incertae sedis records and the fast path\<close>

text \<open>The record written at four places of the source, which differ in the debug label and
  in the cleaned taxonomy only.\<close>

definition incertae_sedis_record :: "string \<Rightarrow> string \<Rightarrow> pyval \<Rightarrow> dict" where
  "incertae_sedis_record api_source label cleaned =
     fold (\<lambda>col res. AList.update col PyNone res) DWC_RANKS_STD
       [(''scientificName'', PyStr ''incertae sedis''),
        (''scientificNameID'', PyStr ''urn:lsid:marinespecies.org:taxname:12''),
        (''taxonRank'', PyNone),
        (''nameAccordingTo'', PyStr api_source),
        (''match_type_debug'', PyStr label),
        (''cleanedTaxonomy'', cleaned)]"

definition cleaned_verbatim_of :: "pyval \<Rightarrow> string" where
  "cleaned_verbatim_of verbatim_str = strip (rstrip_semicolon (strip (py_str verbatim_str)))"

text \<open>The two tests of the loop over the unique tuples, for one tuple: the record it caches,
  or \<open>None\<close> when the tuple is left for the stages.\<close>

definition fast_path_record :: "string \<Rightarrow> key \<Rightarrow> dict option" where
  "fast_path_record api_source k =
     (case k of (verbatim_str, assay) \<Rightarrow>
        (let cleaned_verbatim = cleaned_verbatim_of verbatim_str
         in if cleaned_verbatim = [] \<or>
               lower cleaned_verbatim \<in> set [''unassigned'', ''nan'', ''none'', ''''] \<or>
               isna verbatim_str
            then Some (incertae_sedis_record api_source ''incertae_sedis_unassigned''
                         (PyStr cleaned_verbatim))
            else if lower cleaned_verbatim \<in> set [''eukaryota'']
            then Some (incertae_sedis_record api_source
                         (''incertae_sedis_simple_case_'' @ cleaned_verbatim)
                         (PyStr cleaned_verbatim))
            else None))"

text \<open>The loop: the state is \<open>results_cache\<close> and \<open>cases_to_handle\<close>.\<close>

fun fast_path_loop :: "string \<Rightarrow> key list \<Rightarrow> cache \<times> key list \<Rightarrow> cache \<times> key list" where
  "fast_path_loop api_source [] st = st"
| "fast_path_loop api_source (k # ks) (results_cache, cases_to_handle) =
     (case fast_path_record api_source k of
        Some incertae \<Rightarrow>
          fast_path_loop api_source ks (results_cache(Key k \<mapsto> incertae), cases_to_handle @ [k])
      | None \<Rightarrow> fast_path_loop api_source ks (results_cache, cases_to_handle))"

subsection \<open>Stage 1: pre-matching through the local dictionary\<close>

text \<open>\<open>cleaned_taxonomy = ';'.join(parsed_names) if parsed_names else verbatim_str\<close>.\<close>

definition cleaned_taxonomy_of :: "string list \<Rightarrow> pyval \<Rightarrow> pyval" where
  "cleaned_taxonomy_of parsed_names verbatim_str =
     (if parsed_names \<noteq> [] then PyStr (join '';'' parsed_names) else verbatim_str)"

type_synonym aphia_id_map = "(int \<times> key list) list"

text \<open>\<open>aphia_id_map.get(aphia_id, [])\<close>.\<close>

definition group_of :: "aphia_id_map \<Rightarrow> int \<Rightarrow> key list" where
  "group_of m aphia_id = (case map_of m aphia_id of None \<Rightarrow> [] | Some ks \<Rightarrow> ks)"

text \<open>The first loop of the stage. Its state is \<open>aphia_id_map\<close>, \<open>unmatched_tuples\<close> and, as
  a ghost component, the log of the consultations of the local dictionary: the tuple and
  the name looked up, in the order of the tests \<open>species_name in pr2_dict\<close>.\<close>

fun prematch_loop ::
  "params \<Rightarrow> key list \<Rightarrow> aphia_id_map \<times> key list \<times> (key \<times> string) list \<Rightarrow>
   aphia_id_map \<times> key list \<times> (key \<times> string) list" where
  "prematch_loop p [] st = st"
| "prematch_loop p ((verbatim_str, assay) # ks) (aphia_id_map, unmatched_tuples, lookups) =
     (if assay \<in> set (assays_to_skip_species p)
      then prematch_loop p ks
             (aphia_id_map, unmatched_tuples @ [(verbatim_str, assay)], lookups)
      else
        let parsed_names = parse_semicolon_taxonomy verbatim_str
        in if parsed_names \<noteq> []
           then
             let species_name = last parsed_names;
                 lookups' = lookups @ [((verbatim_str, assay), species_name)]
             in (case map_of (pr2_worms_dict p) species_name of
                   Some aphia_id \<Rightarrow>
                     prematch_loop p ks
                       (AList.update aphia_id
                          (group_of aphia_id_map aphia_id @ [(verbatim_str, assay)])
                          aphia_id_map,
                        unmatched_tuples, lookups')
                 | None \<Rightarrow>
                     prematch_loop p ks
                       (aphia_id_map, unmatched_tuples @ [(verbatim_str, assay)], lookups'))
           else prematch_loop p ks
                  (aphia_id_map, unmatched_tuples @ [(verbatim_str, assay)], lookups))"

text \<open>The second loop of the stage, over the results of the workers.\<close>

definition with_cleaned_taxonomy :: "dict \<Rightarrow> key \<Rightarrow> dict" where
  "with_cleaned_taxonomy result combo =
     (case combo of (verbatim_str, assay) \<Rightarrow>
        AList.update ''cleanedTaxonomy''
          (cleaned_taxonomy_of (parse_semicolon_taxonomy verbatim_str) verbatim_str) result)"

fun apply_prematch ::
  "aphia_id_map \<Rightarrow> (int \<times> dict) list \<Rightarrow> cache \<times> key list \<Rightarrow> cache \<times> key list" where
  "apply_prematch aphia_id_map [] st = st"
| "apply_prematch aphia_id_map ((aphia_id, result) # rs) (results_cache, unmatched_tuples) =
     (if has_key result ''scientificName''
      then apply_prematch aphia_id_map rs
             (fold (\<lambda>combo c. c(Key combo \<mapsto> with_cleaned_taxonomy result combo))
                (group_of aphia_id_map aphia_id) results_cache,
              unmatched_tuples)
      else apply_prematch aphia_id_map rs
             (results_cache, unmatched_tuples @ group_of aphia_id_map aphia_id))"

text \<open>The stage. The pool of the stage is created outside any \<open>try\<close>: when it fails, the
  exception leaves the function.\<close>

definition stage1 ::
  "env \<Rightarrow> params \<Rightarrow> cache \<Rightarrow> key list \<Rightarrow> exn + cache \<times> key list" where
  "stage1 e p results_cache unique_tuples_to_process =
     (if pr2_worms_dict p \<noteq> []
      then
        (case prematch_loop p unique_tuples_to_process ([], [], []) of
           (aphia_id_map, unmatched_tuples, lookups) \<Rightarrow>
             let unique_aphia_ids_to_fetch = map fst aphia_id_map
             in if unique_aphia_ids_to_fetch \<noteq> []
                then
                  if pool_fails_stage1 e then Inl PoolError
                  else
                    let parallel_results =
                          map (\<lambda>aphia_id.
                                 get_worms_classification_by_id_worker e aphia_id (api_source_of p))
                            unique_aphia_ids_to_fetch
                    in Inr (apply_prematch aphia_id_map parallel_results
                              (results_cache, unmatched_tuples))
                else Inr (results_cache, unmatched_tuples))
      else Inr (results_cache, unique_tuples_to_process))"

text \<open>The ghost log of the stage.\<close>

definition stage1_lookups :: "params \<Rightarrow> key list \<Rightarrow> (key \<times> string) list" where
  "stage1_lookups p unique_tuples_to_process =
     (if pr2_worms_dict p \<noteq> []
      then snd (snd (prematch_loop p unique_tuples_to_process ([], [], [])))
      else [])"

subsection \<open>Stage 2: batch name matching\<close>

definition chunk_size :: nat where
  "chunk_size = 50"

text \<open>\<open>batch_data\<close>: the loop variable \<open>i\<close> of \<open>range(0, len(all_terms_to_match), chunk_size)\<close>
  is \<open>q * chunk_size\<close> for the \<open>q\<close> below, and \<open>batch_num\<close> is \<open>i // chunk_size + 1\<close>.\<close>

definition batch_data_of :: "string list \<Rightarrow> (nat \<times> string list) list" where
  "batch_data_of all_terms_to_match =
     map (\<lambda>q. ((q * chunk_size) div chunk_size + 1,
                take chunk_size (drop (q * chunk_size) all_terms_to_match)))
       [0 ..< (length all_terms_to_match + chunk_size - 1) div chunk_size]"

text \<open>One batch of the sequential fallback: what the loop wrote before an \<open>IndexError\<close>
  stays in \<open>batch_lookup\<close>.\<close>

definition sequential_batch :: "env \<Rightarrow> string list \<Rightarrow> lookup \<Rightarrow> lookup" where
  "sequential_batch e chunk batch_lookup =
     (case aphiaRecordsByMatchNames e chunk of
        Inl batch_e \<Rightarrow> batch_lookup
      | Inr batch_results_raw \<Rightarrow> fst (process_matches chunk 0 batch_results_raw batch_lookup))"

text \<open>\<open>batch_lookup\<close> after the parallel submission or, when the pool fails, after the
  sequential fallback. The workers catch every exception, so the submission fails only
  through the pool, before any result is merged.\<close>

definition build_batch_lookup :: "env \<Rightarrow> string list \<Rightarrow> lookup" where
  "build_batch_lookup e all_terms_to_match =
     (let batch_data = batch_data_of all_terms_to_match
      in if \<not> pool_fails_stage2 e
         then fold (\<lambda>r batch_lookup. batch_lookup ++ snd r)
                (map (get_worms_batch_worker e) batch_data) Map.empty
         else fold (\<lambda>b batch_lookup. sequential_batch e (snd b) batch_lookup)
                batch_data Map.empty)"

text \<open>The terms of a tuple that are scanned: \<open>None\<close> when the tuple goes to
  \<open>still_unmatched_batch\<close> before the scan.\<close>

definition terms_to_scan :: "params \<Rightarrow> key \<Rightarrow> string list option" where
  "terms_to_scan p k =
     (case k of (verbatim_str, assay) \<Rightarrow>
        (let parsed_names = parse_semicolon_taxonomy verbatim_str
         in if parsed_names = [] then None
            else
              let max_depth = max_depth_for_assay p assay;
                  is_full_length_taxonomy = (int (length parsed_names) \<ge> max_depth)
              in if assay \<in> set (assays_to_skip_species p) \<and> is_full_length_taxonomy
                 then (if butlast parsed_names = [] then None else Some (butlast parsed_names))
                 else Some parsed_names))"

text \<open>The scan \<open>for term in reversed(parsed_names)\<close>: called on the reversed list.\<close>

fun first_in_lookup :: "lookup \<Rightarrow> string list \<Rightarrow> string option" where
  "first_in_lookup batch_lookup [] = None"
| "first_in_lookup batch_lookup (term # terms) =
     (if batch_lookup term \<noteq> None then Some term else first_in_lookup batch_lookup terms)"

definition batch_match_record :: "string \<Rightarrow> dict \<Rightarrow> string \<Rightarrow> pyval \<Rightarrow> dict" where
  "batch_match_record api_source entry term cleaned_taxonomy =
     AList.update ''cleanedTaxonomy'' cleaned_taxonomy
       (AList.update ''match_type_debug'' (PyStr (''Success_Batch_'' @ term))
          (AList.update ''nameAccordingTo'' (PyStr api_source) entry))"

definition match_key :: "params \<Rightarrow> lookup \<Rightarrow> key \<Rightarrow> dict option" where
  "match_key p batch_lookup k =
     (case terms_to_scan p k of
        None \<Rightarrow> None
      | Some parsed_names \<Rightarrow>
          (case first_in_lookup batch_lookup (rev parsed_names) of
             None \<Rightarrow> None
           | Some term \<Rightarrow>
               (case batch_lookup term of
                  None \<Rightarrow> None
                | Some entry \<Rightarrow>
                    Some (batch_match_record (api_source_of p) entry term
                            (cleaned_taxonomy_of parsed_names (fst k))))))"

fun match_loop ::
  "params \<Rightarrow> lookup \<Rightarrow> key list \<Rightarrow> cache \<times> key list \<Rightarrow> cache \<times> key list" where
  "match_loop p batch_lookup [] st = st"
| "match_loop p batch_lookup (k # ks) (results_cache, still_unmatched_batch) =
     (case match_key p batch_lookup k of
        Some r \<Rightarrow> match_loop p batch_lookup ks (results_cache(Key k \<mapsto> r), still_unmatched_batch)
      | None \<Rightarrow> match_loop p batch_lookup ks (results_cache, still_unmatched_batch @ [k]))"

definition all_terms_of :: "env \<Rightarrow> key list \<Rightarrow> string list" where
  "all_terms_of e unmatched_tuples =
     set_order e (concat (map (\<lambda>k. parse_semicolon_taxonomy (fst k)) unmatched_tuples))"

definition stage2 :: "env \<Rightarrow> params \<Rightarrow> cache \<Rightarrow> key list \<Rightarrow> cache \<times> key list" where
  "stage2 e p results_cache unmatched_tuples =
     (if unmatched_tuples \<noteq> []
      then
        let all_terms_to_match = all_terms_of e unmatched_tuples
        in if all_terms_to_match \<noteq> []
           then match_loop p (build_batch_lookup e all_terms_to_match) unmatched_tuples
                  (results_cache, [])
           else (results_cache, unmatched_tuples)
      else (results_cache, unmatched_tuples))"

subsection \<open>The final unmatched tuples, the sentinel and the merge\<close>

definition no_match_record :: "params \<Rightarrow> key \<Rightarrow> dict" where
  "no_match_record p combo =
     (case combo of (verbatim_str, assay) \<Rightarrow>
        (let parsed_names = parse_semicolon_taxonomy verbatim_str;
             max_depth = max_depth_for_assay p assay;
             is_full_length_taxonomy = (int (length parsed_names) \<ge> max_depth);
             parsed_names' =
               (if assay \<in> set (assays_to_skip_species p) \<and> is_full_length_taxonomy \<and>
                   parsed_names \<noteq> []
                then butlast parsed_names else parsed_names)
         in incertae_sedis_record (api_source_of p) ''Failed_All_Stages_NoMatch''
              (cleaned_taxonomy_of parsed_names' verbatim_str)))"

definition final_unmatched :: "params \<Rightarrow> cache \<Rightarrow> key list \<Rightarrow> cache" where
  "final_unmatched p results_cache unmatched_tuples =
     fold (\<lambda>combo c. c(Key combo \<mapsto> no_match_record p combo)) unmatched_tuples results_cache"

definition truly_empty_record :: "params \<Rightarrow> dict" where
  "truly_empty_record p =
     incertae_sedis_record (api_source_of p) ''incertae_sedis_truly_empty_fallback'' (PyStr [])"

text \<open>The keys left for the stages after the fast path.\<close>

definition tuples_to_process :: "params \<Rightarrow> occurrence list \<Rightarrow> key list" where
  "tuples_to_process p df =
     (case fast_path_loop (api_source_of p) (unique_tuples df) (Map.empty, []) of
        (results_cache, cases_to_handle) \<Rightarrow>
          filter (\<lambda>t. t \<notin> set cases_to_handle) (unique_tuples df))"

text \<open>\<open>results_cache\<close> at the merge.\<close>

definition results_cache_of :: "env \<Rightarrow> params \<Rightarrow> occurrence list \<Rightarrow> exn + cache" where
  "results_cache_of e p df =
     (case fast_path_loop (api_source_of p) (unique_tuples df) (Map.empty, []) of
        (cache0, cases_to_handle) \<Rightarrow>
          (case stage1 e p cache0 (tuples_to_process p df) of
             Inl ex \<Rightarrow> Inl ex
           | Inr (cache1, unmatched1) \<Rightarrow>
               (case stage2 e p cache1 unmatched1 of
                  (cache2, unmatched2) \<Rightarrow>
                    Inr ((final_unmatched p cache2 unmatched2)
                           (IS_TRULY_EMPTY \<mapsto> truly_empty_record p)))))"

text \<open>The function. The first statement that can raise is the one that computes
  \<open>empty_verbatim_mask\<close>: it applies \<open>.str\<close> to the column \<open>verbatimIdentification\<close>, and no
  handler encloses it. A row of the result is the row of the input with the dictionary that
  \<open>Series.map\<close> found for its key, whose entries become the columns of the row; \<open>None\<close> is
  a key missing from \<open>results_cache\<close>. The number of processes has no effect on the result
  and is left out.\<close>

definition get_worms_match_for_dataframe ::
  "env \<Rightarrow> params \<Rightarrow> dataframe \<Rightarrow> exn + (occurrence \<times> dict option) list" where
  "get_worms_match_for_dataframe e p occurrence_df =
     (if verbatimIdentification_dtype occurrence_df \<noteq> object_dtype then Inl AttributeError
      else
        (case results_cache_of e p (rows occurrence_df) of
           Inl ex \<Rightarrow> Inl ex
         | Inr results_cache \<Rightarrow>
             Inr (map (\<lambda>r. (r, results_cache (map_key_of r))) (rows occurrence_df))))"

subsection \<open>The normalizer in the words of the specification\<close>

text \<open>Section 4.1 of the specification, step by step: the separators inside terms become
  spaces, the string is split on semicolons, the tokens that are empty or \<open>unassigned\<close> after
  trimming are dropped, each remaining token loses \<open>sp.\<close> and \<open>spp.\<close> with their leading
  space and its decimal digits, has its whitespace runs collapsed when it holds two
  consecutive spaces, is trimmed, and is dropped when at most one character is left.\<close>

definition spec_keep :: "string \<Rightarrow> bool" where
  "spec_keep t = (strip t \<noteq> [] \<and> lower (strip t) \<noteq> ''unassigned'')"

definition spec_clean :: "string \<Rightarrow> string" where
  "spec_clean t =
     (let u = re_sub_digits (replace (replace (strip t) '' sp.'' []) '' spp.'' [])
      in strip (if contains u ''  '' then re_sub_spaces u else u))"

definition normalize_spec :: "pyval \<Rightarrow> string list" where
  "normalize_spec raw =
     (if isna raw \<or> strip (py_str raw) = [] then []
      else filter (\<lambda>t. 1 < length t)
             (map spec_clean
                (filter spec_keep
                   (split (map (\<lambda>c. if c \<in> set ''_-/'' then CHR '' '' else c) (py_str raw))
                      CHR '';''))))"

subsection \<open>What each stage does to one key\<close>

text \<open>The identifier that the first loop of Stage 1 files a tuple under, or \<open>None\<close> when
  the loop sends the tuple to \<open>unmatched_tuples\<close>.\<close>

definition prematch_target :: "params \<Rightarrow> key \<Rightarrow> int option" where
  "prematch_target p k =
     (if snd k \<in> set (assays_to_skip_species p) then None
      else if parse_semicolon_taxonomy (fst k) = [] then None
      else map_of (pr2_worms_dict p) (last (parse_semicolon_taxonomy (fst k))))"

text \<open>Whether the first loop of Stage 1 consults the local dictionary for a tuple.\<close>

definition consults_dictionary :: "params \<Rightarrow> key \<Rightarrow> bool" where
  "consults_dictionary p k =
     (if snd k \<in> set (assays_to_skip_species p) then False
      else parse_semicolon_taxonomy (fst k) \<noteq> [])"

text \<open>The record that Stage 1 caches for a tuple it processes, or \<open>None\<close> when the tuple
  falls through.\<close>

definition stage1_record :: "env \<Rightarrow> params \<Rightarrow> key \<Rightarrow> dict option" where
  "stage1_record e p k =
     (if pr2_worms_dict p = [] then None
      else
        (case prematch_target p k of
           None \<Rightarrow> None
         | Some aphia_id \<Rightarrow>
             (let result = snd (get_worms_classification_by_id_worker e aphia_id (api_source_of p))
              in if has_key result ''scientificName''
                 then Some (with_cleaned_taxonomy result k) else None)))"

text \<open>\<open>unmatched_tuples\<close> after Stage 1 (it does not depend on the cache).\<close>

definition stage1_unmatched :: "env \<Rightarrow> params \<Rightarrow> key list \<Rightarrow> key list" where
  "stage1_unmatched e p todo =
     (case stage1 e p Map.empty todo of Inl ex \<Rightarrow> [] | Inr (c, unmatched_tuples) \<Rightarrow> unmatched_tuples)"

text \<open>The record that Stage 2 caches for a tuple of \<open>unmatched_tuples\<close>, or \<open>None\<close> when
  the tuple stays unmatched.\<close>

definition stage2_record :: "env \<Rightarrow> params \<Rightarrow> key list \<Rightarrow> key \<Rightarrow> dict option" where
  "stage2_record e p unmatched_tuples k =
     (if all_terms_of e unmatched_tuples = [] then None
      else match_key p (build_batch_lookup e (all_terms_of e unmatched_tuples)) k)"

text \<open>The record of a tuple at the merge: the first of the fast path, Stage 1, Stage 2
  and the final fallback that produces one.\<close>

definition final_record :: "env \<Rightarrow> params \<Rightarrow> occurrence list \<Rightarrow> key \<Rightarrow> dict" where
  "final_record e p df k =
     (case fast_path_record (api_source_of p) k of
        Some r \<Rightarrow> r
      | None \<Rightarrow>
          (case stage1_record e p k of
             Some r \<Rightarrow> r
           | None \<Rightarrow>
               (case stage2_record e p (stage1_unmatched e p (tuples_to_process p df)) k of
                  Some r \<Rightarrow> r
                | None \<Rightarrow> no_match_record p k)))"

subsection \<open>A small run\<close>

text \<open>A service that knows the identifier 7 as an accepted record and the identifier 8 as
  an unaccepted one, fails on every other identifier, and matches the names \<open>Bacteria\<close> and
  \<open>Metazoa\<close>; both pools work; a set is listed in the order of first occurrence.\<close>

definition example_record :: "string \<Rightarrow> string \<Rightarrow> dict" where
  "example_record status name =
     [(''status'', PyStr status), (''scientificname'', PyStr name),
      (''lsid'', PyStr (''urn:lsid:marinespecies.org:taxname:'' @ name)),
      (''rank'', PyStr ''Kingdom''), (''kingdom'', PyStr name)]"

definition example_env :: env where
  "example_env =
     \<lparr> aphiaRecordByAphiaID =
         (\<lambda>i. if i = 7 then Inr (Some (example_record ''accepted'' ''Foraminifera''))
              else if i = 8 then Inr (Some (example_record ''unaccepted'' ''Oldname''))
              else Inl ServiceError),
       aphiaRecordsByMatchNames =
         (\<lambda>chunk. Inr (map (\<lambda>t. if t \<in> set [''Bacteria'', ''Metazoa'']
                                  then [None, Some (example_record ''unaccepted'' t),
                                        Some (example_record ''accepted'' t)]
                                  else []) chunk)),
       pool_fails_stage1 = False,
       pool_fails_stage2 = False,
       set_order = drop_duplicates \<rparr>"

definition example_params :: params where
  "example_params =
     \<lparr> taxonomic_api_source = None,
       assays_to_skip_species_match = Some [''A16S''],
       pr2_worms_dict = [(''Foraminifera'', 7), (''Oldname'', 8), (''Ghost'', 9)],
       assay_rank_info = [(''A16S'', Some 3), (''B18S'', None)] \<rparr>"

definition example_df :: "occurrence list" where
  "example_df =
     [\<lparr> verbatimIdentification = PyStr ''Bacteria;Proteobacteria;Vibrio'', assay_name = ''A16S'' \<rparr>,
      \<lparr> verbatimIdentification = PyStr ''unassigned;'', assay_name = ''A16S'' \<rparr>,
      \<lparr> verbatimIdentification = PyStr ''Eukaryota;'', assay_name = ''B18S'' \<rparr>,
      \<lparr> verbatimIdentification = PyStr ''  '', assay_name = ''B18S'' \<rparr>,
      \<lparr> verbatimIdentification = PyStr ''a;b'', assay_name = ''B18S'' \<rparr>,
      \<lparr> verbatimIdentification = PyNaN, assay_name = ''B18S'' \<rparr>,
      \<lparr> verbatimIdentification = PyStr ''Bacteria'', assay_name = ''B18S'' \<rparr>,
      \<lparr> verbatimIdentification = PyStr ''Eukaryota;Foraminifera'', assay_name = ''B18S'' \<rparr>,
      \<lparr> verbatimIdentification = PyStr ''Eukaryota;Metazoa;Oldname'', assay_name = ''B18S'' \<rparr>,
      \<lparr> verbatimIdentification = PyStr ''Bacteria;Proteobacteria'', assay_name = ''A16S'' \<rparr>,
      \<lparr> verbatimIdentification = PyStr ''Bacteria'', assay_name = ''B18S'' \<rparr>,
      \<lparr> verbatimIdentification = PyStr ''Eukaryota;Metazoa;Ghost'', assay_name = ''B18S'' \<rparr>]"

text \<open>An assay whose lineages have a single level, and one row of it.\<close>

definition shallow_params :: params where
  "shallow_params =
     \<lparr> taxonomic_api_source = None,
       assays_to_skip_species_match = Some [''A16S''],
       pr2_worms_dict = [],
       assay_rank_info = [(''A16S'', Some 1)] \<rparr>"

definition shallow_df :: "occurrence list" where
  "shallow_df = [\<lparr> verbatimIdentification = PyStr ''Bacteria'', assay_name = ''A16S'' \<rparr>]"


text \<open>Fifty-six distinct terms, which make two batches, and a service that raises on every
  batch holding the term \<open>Aa\<close>; the second environment is the same with a failing pool in
  Stage 2, so that the batches are processed by the sequential fallback.\<close>

definition many_terms :: "string list" where
  "many_terms = concat (map (\<lambda>x. map (\<lambda>y. [x, y]) ''abcdefgh'') ''ABCDEFG'')"

definition failing_batch_env :: env where
  "failing_batch_env =
     \<lparr> aphiaRecordByAphiaID = (\<lambda>i. Inl ServiceError),
       aphiaRecordsByMatchNames =
         (\<lambda>chunk. if ''Aa'' \<in> set chunk then Inl ServiceError
                   else Inr (map (\<lambda>t. [Some (example_record ''accepted'' t)]) chunk)),
       pool_fails_stage1 = False,
       pool_fails_stage2 = False,
       set_order = drop_duplicates \<rparr>"

definition failing_pool_env :: env where
  "failing_pool_env = failing_batch_env \<lparr> pool_fails_stage2 := True \<rparr>"

subsection \<open>Complete records\<close>

text \<open>A record that has the key \<open>scientificName\<close> and the seven standard rank keys, and a
  record whose \<open>scientificName\<close> is a string.\<close>

definition complete_record :: "dict \<Rightarrow> bool" where
  "complete_record d = list_all (has_key d) (''scientificName'' # DWC_RANKS_STD)"

definition named_record :: "dict \<Rightarrow> bool" where
  "named_record d = (case dget d ''scientificName'' of PyStr s \<Rightarrow> True | _ \<Rightarrow> False)"

text \<open>An assumption on the remote service, not a part of the program: every accepted
  record that it returns, for an identifier or as a candidate of a name, carries a
  \<open>scientificname\<close> that is a string.\<close>

definition service_names_present :: "env \<Rightarrow> bool" where
  "service_names_present e =
     ((\<forall>aphia_id record.
         aphiaRecordByAphiaID e aphia_id = Inr (Some record) \<and>
         dget record ''status'' = PyStr ''accepted'' \<longrightarrow>
         (\<exists>s. dget record ''scientificname'' = PyStr s)) \<and>
      (\<forall>chunk raw name_list match.
         aphiaRecordsByMatchNames e chunk = Inr raw \<and> name_list \<in> set raw \<and>
         Some match \<in> set name_list \<and> dget match ''status'' = PyStr ''accepted'' \<longrightarrow>
         (\<exists>s. dget match ''scientificname'' = PyStr s)))"

text \<open>A service whose accepted candidates carry a status and nothing else.\<close>

definition nameless_env :: env where
  "nameless_env =
     \<lparr> aphiaRecordByAphiaID = (\<lambda>i. Inl ServiceError),
       aphiaRecordsByMatchNames =
         (\<lambda>chunk. Inr (map (\<lambda>t. [Some [(''status'', PyStr ''accepted'')]]) chunk)),
       pool_fails_stage1 = False,
       pool_fails_stage2 = False,
       set_order = drop_duplicates \<rparr>"

definition nameless_df :: "occurrence list" where
  "nameless_df = [\<lparr> verbatimIdentification = PyStr ''Bacteria'', assay_name = ''B18S'' \<rparr>]"

subsection \<open>The calls made for a key\<close>

text \<open>\<open>aphia_id_map\<close> and \<open>unique_aphia_ids_to_fetch\<close> of Stage 1: the identifiers that are
  fetched from the remote service, one call each, in this order.\<close>

definition stage1_groups :: "params \<Rightarrow> key list \<Rightarrow> aphia_id_map" where
  "stage1_groups p unique_tuples_to_process =
     (if pr2_worms_dict p \<noteq> []
      then fst (prematch_loop p unique_tuples_to_process ([], [], []))
      else [])"

definition stage1_fetches :: "params \<Rightarrow> key list \<Rightarrow> int list" where
  "stage1_fetches p unique_tuples_to_process =
     map fst (stage1_groups p unique_tuples_to_process)"

text \<open>Two rows of the same lineage and assay, an assay that skips species.\<close>

definition twin_df :: "occurrence list" where
  "twin_df =
     [\<lparr> verbatimIdentification = PyStr ''Bacteria;Oldname'', assay_name = ''A16S'' \<rparr>,
      \<lparr> verbatimIdentification = PyStr ''Bacteria;Oldname'', assay_name = ''A16S'' \<rparr>]"

section \<open>Properties\<close>

subsection \<open>The normalizer\<close>

lemma replace_single_char:
  "replace s [p] [q] = map (\<lambda>c. if c = p then q else c) s"
  by (induction s) auto

lemma separators_to_spaces:
  "replace (replace (replace s ''_'' '' '') ''-'' '' '') ''/'' '' '' =
   map (\<lambda>c. if c \<in> set ''_-/'' then CHR '' '' else c) s"
  by (simp add: replace_single_char)

lemma re_sub_digits_unless_isdigit:
  "(if list_ex py_isdigit s then re_sub_digits s else s) = re_sub_digits s"
  by (auto simp: list_ex_iff re_sub_digits_def py_isdigit_def filter_id_conv)

lemma clean_name_spec:
  "clean_name t =
     (if spec_keep t \<and> 1 < length (spec_clean t) then Some (spec_clean t) else None)"
  by (auto simp: clean_name_def spec_keep_def spec_clean_def Let_def
        re_sub_digits_unless_isdigit)

lemma map_filter_clean_name:
  "List.map_filter clean_name ts =
   filter (\<lambda>t. 1 < length t) (map spec_clean (filter spec_keep ts))"
  by (induction ts) (auto simp: clean_name_spec)

text \<open>
  Claim C7, corrected. The normalizer is a function of its input that replaces
  underscores, hyphens and slashes with spaces, splits on semicolons, trims the tokens,
  drops the empty tokens and the tokens equal to \<open>unassigned\<close> whatever the case, strips
  \<open>sp.\<close> and \<open>spp.\<close> with their leading space, removes the decimal digits, collapses the
  whitespace runs of a token only when the token holds two consecutive spaces, and drops
  the tokens of length at most one: it is equal, on every input, to the normalizer written
  in the words of the specification. On \<open>Eukaryota;Metazoa_sp.2;\<close> it returns exactly
  \<open>Eukaryota\<close>, \<open>Metazoa\<close>.
\<close>

theorem C7_normalizer_refines_spec:
  "parse_semicolon_taxonomy raw = normalize_spec raw \<and>
   parse_semicolon_taxonomy (PyStr ''Eukaryota;Metazoa_sp.2;'') = [''Eukaryota'', ''Metazoa'']"
proof
  show "parse_semicolon_taxonomy raw = normalize_spec raw"
    by (simp add: parse_semicolon_taxonomy_def normalize_spec_def separators_to_spaces
          map_filter_clean_name del: set_simps)
  show "parse_semicolon_taxonomy (PyStr ''Eukaryota;Metazoa_sp.2;'') = [''Eukaryota'', ''Metazoa'']"
    by code_simp
qed

text \<open>
  Claim C7 as stated fails: a token with a run of two TAB characters and no two
  consecutive spaces is returned with the run intact, where collapsing the run gives
  a single space.
\<close>

theorem C7_whitespace_run_not_collapsed:
  "parse_semicolon_taxonomy (PyStr [CHR ''a'', CHR ''b'', CHR 0x09, CHR 0x09, CHR ''c'', CHR ''d''])
     = [[CHR ''a'', CHR ''b'', CHR 0x09, CHR 0x09, CHR ''c'', CHR ''d'']] \<and>
   re_sub_spaces [CHR ''a'', CHR ''b'', CHR 0x09, CHR 0x09, CHR ''c'', CHR ''d''] = ''ab cd''"
  by code_simp

subsection \<open>The loops, one key at a time\<close>

lemma fold_cache_update:
  "fold (\<lambda>x c. c(Key x \<mapsto> g x)) ks c (Key k) = (if k \<in> set ks then Some (g k) else c (Key k))"
  by (induction ks arbitrary: c) auto

lemma fast_path_loop_cache:
  "fst (fast_path_loop api ks (c, h)) (Key k) =
     (if k \<in> set ks \<and> fast_path_record api k \<noteq> None then fast_path_record api k
      else c (Key k))"
  by (induction ks arbitrary: c h) (auto split: option.splits)

lemma fast_path_loop_handled:
  "snd (fast_path_loop api ks (c, h)) = h @ filter (\<lambda>k. fast_path_record api k \<noteq> None) ks"
  by (induction ks arbitrary: c h) (auto split: option.splits)

lemma tuples_to_process_eq:
  "tuples_to_process p df =
     filter (\<lambda>k. fast_path_record (api_source_of p) k = None) (unique_tuples df)"
proof -
  have "snd (fast_path_loop (api_source_of p) (unique_tuples df) (Map.empty, [])) =
          filter (\<lambda>k. fast_path_record (api_source_of p) k \<noteq> None) (unique_tuples df)"
    by (simp add: fast_path_loop_handled)
  then show ?thesis
    by (auto simp: tuples_to_process_def split: prod.splits intro!: filter_cong)
qed

lemma match_loop_cache:
  "fst (match_loop p lk ks (c, st)) (Key k) =
     (if k \<in> set ks \<and> match_key p lk k \<noteq> None then match_key p lk k else c (Key k))"
  by (induction ks arbitrary: c st) (auto split: option.splits)

lemma match_loop_unmatched:
  "snd (match_loop p lk ks (c, st)) = st @ filter (\<lambda>k. match_key p lk k = None) ks"
  by (induction ks arbitrary: c st) (auto split: option.splits)

lemma stage2_cache:
  "fst (stage2 e p c um) (Key k) =
     (if k \<in> set um \<and> stage2_record e p um k \<noteq> None then stage2_record e p um k
      else c (Key k))"
  by (auto simp: stage2_def stage2_record_def Let_def match_loop_cache)

lemma stage2_unmatched:
  "snd (stage2 e p c um) = filter (\<lambda>k. stage2_record e p um k = None) um"
  by (auto simp: stage2_def stage2_record_def Let_def match_loop_unmatched)

lemma final_unmatched_cache:
  "final_unmatched p c um (Key k) =
     (if k \<in> set um then Some (no_match_record p k) else c (Key k))"
  by (simp add: final_unmatched_def fold_cache_update)

subsection \<open>Stage 1\<close>

lemma group_of_update:
  "group_of (AList.update j v m) i = (if i = j then v else group_of m i)"
  by (simp add: group_of_def update_conv')

lemma prematch_loop_step:
  "prematch_loop p (k # ks) (m, um, lg) =
     (let lg' = (if consults_dictionary p k
                 then lg @ [(k, last (parse_semicolon_taxonomy (fst k)))] else lg)
      in case prematch_target p k of
           None \<Rightarrow> prematch_loop p ks (m, um @ [k], lg')
         | Some i \<Rightarrow> prematch_loop p ks (AList.update i (group_of m i @ [k]) m, um, lg'))"
  by (cases k)
    (simp add: prematch_target_def consults_dictionary_def Let_def split: option.splits)

lemma prematch_loop_unmatched:
  "fst (snd (prematch_loop p ks (m, um, lg))) =
     um @ filter (\<lambda>k. prematch_target p k = None) ks"
  by (induction ks arbitrary: m um lg)
    (auto simp: prematch_loop_step Let_def simp del: prematch_loop.simps(2) split: option.splits)

lemma prematch_loop_lookups:
  "snd (snd (prematch_loop p ks (m, um, lg))) =
     lg @ map (\<lambda>k. (k, last (parse_semicolon_taxonomy (fst k))))
            (filter (consults_dictionary p) ks)"
  by (induction ks arbitrary: m um lg)
    (auto simp: prematch_loop_step Let_def simp del: prematch_loop.simps(2) split: option.splits)

lemma prematch_loop_group:
  "group_of (fst (prematch_loop p ks (m, um, lg))) i =
     group_of m i @ filter (\<lambda>k. prematch_target p k = Some i) ks"
  by (induction ks arbitrary: m um lg)
    (auto simp: prematch_loop_step Let_def group_of_update
       simp del: prematch_loop.simps(2) split: option.splits)

lemma prematch_loop_ids:
  "fst ` set (fst (prematch_loop p ks (m, um, lg))) =
     fst ` set m \<union> {i. \<exists>k \<in> set ks. prematch_target p k = Some i}"
proof (induction ks arbitrary: m um lg)
  case Nil
  then show ?case by simp
next
  case (Cons k ks)
  show ?case
  proof (cases "prematch_target p k")
    case None
    then show ?thesis
      by (auto simp: prematch_loop_step Let_def Cons.IH simp del: prematch_loop.simps(2))
  next
    case (Some i)
    then show ?thesis
      by (auto simp: prematch_loop_step Let_def Cons.IH dom_update
            simp del: prematch_loop.simps(2))
  qed
qed

lemma prematch_loop_distinct:
  "distinct (map fst m) \<Longrightarrow> distinct (map fst (fst (prematch_loop p ks (m, um, lg))))"
  by (induction ks arbitrary: m um lg)
    (auto simp: prematch_loop_step Let_def distinct_update
       simp del: prematch_loop.simps(2) split: option.splits)

lemma worker_fst:
  "fst (get_worms_classification_by_id_worker e i api) = i"
  by (simp add: get_worms_classification_by_id_worker_def Let_def split: sum.splits option.splits)

lemma apply_prematch_unmatched:
  "snd (apply_prematch m rs (c, um)) =
     um @ concat (map (\<lambda>r. if has_key (snd r) ''scientificName'' then [] else group_of m (fst r)) rs)"
proof (induction rs arbitrary: c um)
  case Nil
  then show ?case by simp
next
  case (Cons r rs)
  then show ?case by (cases r) auto
qed

lemma apply_prematch_cache:
  assumes "\<And>i. i \<in> set ids \<Longrightarrow> k \<in> set (group_of m i) \<Longrightarrow> i = i0"
  shows "fst (apply_prematch m (map (\<lambda>i. (i, f i)) ids) (c, um)) (Key k) =
           (if i0 \<in> set ids \<and> k \<in> set (group_of m i0) \<and> has_key (f i0) ''scientificName''
            then Some (with_cleaned_taxonomy (f i0) k) else c (Key k))"
  using assms
proof (induction ids arbitrary: c um)
  case Nil
  then show ?case by simp
next
  case (Cons i ids)
  have rest: "\<And>j. j \<in> set ids \<Longrightarrow> k \<in> set (group_of m j) \<Longrightarrow> j = i0"
    using Cons.prems by simp
  have here: "k \<in> set (group_of m i) \<Longrightarrow> i = i0"
    using Cons.prems by simp
  show ?case
    using here by (auto simp: Cons.IH [OF rest] fold_cache_update)
qed

lemma worker_as_pair:
  "map (\<lambda>i. get_worms_classification_by_id_worker e i api) ids =
   map (\<lambda>i. (i, snd (get_worms_classification_by_id_worker e i api))) ids"
  by (simp add: prod_eq_iff worker_fst)

lemma stage1_Inr_eq:
  assumes "stage1 e p c todo = Inr x"
  shows "x =
     (if pr2_worms_dict p = [] then (c, todo)
      else apply_prematch (fst (prematch_loop p todo ([], [], [])))
             (map (\<lambda>i. (i, snd (get_worms_classification_by_id_worker e i (api_source_of p))))
                (map fst (fst (prematch_loop p todo ([], [], [])))))
             (c, filter (\<lambda>k. prematch_target p k = None) todo))"
proof (cases "pr2_worms_dict p = []")
  case True
  with assms show ?thesis by (simp add: stage1_def)
next
  case False
  obtain m um lg where loop: "prematch_loop p todo ([], [], []) = (m, um, lg)"
    by (cases "prematch_loop p todo ([], [], [])") auto
  have um: "um = filter (\<lambda>k. prematch_target p k = None) todo"
    using prematch_loop_unmatched [of p todo "[]" "[]" "[]"] loop by simp
  show ?thesis
  proof (cases "m = []")
    case True
    with assms False loop um show ?thesis by (simp add: stage1_def)
  next
    case nonempty: False
    with assms False loop um show ?thesis
      by (simp add: stage1_def Let_def worker_as_pair split: if_splits)
  qed
qed

lemma stage1_returns:
  "\<not> pool_fails_stage1 e \<Longrightarrow> \<exists>x. stage1 e p c todo = Inr x"
  by (simp add: stage1_def Let_def split: prod.splits)

lemma stage1_fails_only_by_pool:
  "stage1 e p c todo = Inl ex \<Longrightarrow> pool_fails_stage1 e \<and> ex = PoolError"
  by (simp add: stage1_def Let_def split: prod.splits if_splits)

lemma group_of_Nil:
  "group_of [] i = []"
  by (simp add: group_of_def)

lemma prematch_groups:
  "group_of (fst (prematch_loop p todo ([], [], []))) i =
     filter (\<lambda>k. prematch_target p k = Some i) todo"
  by (simp add: prematch_loop_group group_of_Nil)

lemma prematch_id_set:
  "fst ` set (fst (prematch_loop p todo ([], [], []))) =
     {i. \<exists>k \<in> set todo. prematch_target p k = Some i}"
  by (simp add: prematch_loop_ids)

lemma stage1_cache:
  assumes "stage1 e p c todo = Inr (c1, um1)"
  shows "c1 (Key k) =
           (if k \<in> set todo \<and> stage1_record e p k \<noteq> None then stage1_record e p k
            else c (Key k))"
proof (cases "pr2_worms_dict p = []")
  case True
  with stage1_Inr_eq [OF assms] show ?thesis by (simp add: stage1_record_def)
next
  case False
  let ?m = "fst (prematch_loop p todo ([], [], []))"
  let ?f = "\<lambda>i. snd (get_worms_classification_by_id_worker e i (api_source_of p))"
  let ?i0 = "the (prematch_target p k)"
  have c1: "c1 = fst (apply_prematch ?m (map (\<lambda>i. (i, ?f i)) (map fst ?m))
                        (c, filter (\<lambda>k. prematch_target p k = None) todo))"
    using stage1_Inr_eq [OF assms] False by (simp add: prod_eq_iff)
  have only: "\<And>i. i \<in> set (map fst ?m) \<Longrightarrow> k \<in> set (group_of ?m i) \<Longrightarrow> i = ?i0"
    by (simp add: prematch_groups)
  have "c1 (Key k) =
          (if ?i0 \<in> set (map fst ?m) \<and> k \<in> set (group_of ?m ?i0) \<and>
              has_key (?f ?i0) ''scientificName''
           then Some (with_cleaned_taxonomy (?f ?i0) k) else c (Key k))"
    unfolding c1 by (rule apply_prematch_cache [OF only])
  also have "\<dots> = (if k \<in> set todo \<and> stage1_record e p k \<noteq> None then stage1_record e p k
                     else c (Key k))"
    using False
    by (cases "prematch_target p k")
      (auto simp: prematch_groups prematch_id_set stage1_record_def Let_def)
  finally show ?thesis .
qed

lemma stage1_unmatched_set:
  assumes "stage1 e p c todo = Inr (c1, um1)"
  shows "set um1 = {k \<in> set todo. stage1_record e p k = None}"
proof (cases "pr2_worms_dict p = []")
  case True
  with stage1_Inr_eq [OF assms] show ?thesis by (simp add: stage1_record_def)
next
  case False
  let ?m = "fst (prematch_loop p todo ([], [], []))"
  let ?f = "\<lambda>i. snd (get_worms_classification_by_id_worker e i (api_source_of p))"
  have "um1 = snd (apply_prematch ?m (map (\<lambda>i. (i, ?f i)) (map fst ?m))
                     (c, filter (\<lambda>k. prematch_target p k = None) todo))"
    using stage1_Inr_eq [OF assms] False by (simp add: prod_eq_iff)
  then have mem: "k \<in> set um1 \<longleftrightarrow>
       (k \<in> set todo \<and> prematch_target p k = None) \<or>
       (\<exists>i \<in> fst ` set ?m. \<not> has_key (?f i) ''scientificName'' \<and>
          k \<in> set todo \<and> prematch_target p k = Some i)" for k
    by (force simp: apply_prematch_unmatched prematch_groups split: if_splits)
  have "k \<in> set um1 \<longleftrightarrow> k \<in> set todo \<and> stage1_record e p k = None" for k
    unfolding mem prematch_id_set using False
    by (auto simp: stage1_record_def Let_def split: option.splits if_splits)
  then show ?thesis by auto
qed

lemma stage1_unmatched_eq:
  assumes "stage1 e p c todo = Inr (c1, um1)"
  shows "stage1_unmatched e p todo = um1"
proof -
  have "\<not> stage1 e p Map.empty todo = Inl PoolError"
    using assms by (auto simp: stage1_def Let_def split: prod.splits if_splits)
  then obtain c' um' where other: "stage1 e p Map.empty todo = Inr (c', um')"
    using stage1_fails_only_by_pool [of e p Map.empty todo]
    by (cases "stage1 e p Map.empty todo") auto
  have "um' = um1"
    using stage1_Inr_eq [OF assms] stage1_Inr_eq [OF other]
    by (auto simp: prod_eq_iff apply_prematch_unmatched split: if_splits)
  with other show ?thesis by (simp add: stage1_unmatched_def)
qed

lemma stage1_lookups_keys:
  "fst ` set (stage1_lookups p todo) =
     (if pr2_worms_dict p = [] then {} else {k \<in> set todo. consults_dictionary p k})"
  by (force simp: stage1_lookups_def prematch_loop_lookups)

subsection \<open>The whole run\<close>

lemma drop_duplicates_set [simp]:
  "set (drop_duplicates xs) = set xs"
  by (simp add: drop_duplicates_def)

lemma drop_duplicates_distinct [simp]:
  "distinct (drop_duplicates xs)"
  by (simp add: drop_duplicates_def)

lemma unique_tuples_distinct:
  "distinct (unique_tuples df)"
  by (simp add: unique_tuples_def)

lemma row_key_in_unique_tuples:
  "r \<in> set df \<Longrightarrow> \<not> empty_verbatim_mask r \<Longrightarrow>
   (verbatimIdentification r, assay_name r) \<in> set (unique_tuples df)"
  by (auto simp: unique_tuples_def)

lemma results_cache_of_Inr:
  assumes "results_cache_of e p df = Inr C"
  obtains c0 h c1 um1 where
    "fast_path_loop (api_source_of p) (unique_tuples df) (Map.empty, []) = (c0, h)"
    "stage1 e p c0 (tuples_to_process p df) = Inr (c1, um1)"
    "C = (final_unmatched p (fst (stage2 e p c1 um1)) (snd (stage2 e p c1 um1)))
           (IS_TRULY_EMPTY \<mapsto> truly_empty_record p)"
  using assms
  by (auto simp: results_cache_of_def split: prod.splits sum.splits)

lemma results_cache_key:
  assumes "results_cache_of e p df = Inr C" and "k \<in> set (unique_tuples df)"
  shows "C (Key k) = Some (final_record e p df k)"
proof -
  from assms(1) obtain c0 h c1 um1 where
    fast: "fast_path_loop (api_source_of p) (unique_tuples df) (Map.empty, []) = (c0, h)" and
    st1: "stage1 e p c0 (tuples_to_process p df) = Inr (c1, um1)" and
    C: "C = (final_unmatched p (fst (stage2 e p c1 um1)) (snd (stage2 e p c1 um1)))
              (IS_TRULY_EMPTY \<mapsto> truly_empty_record p)"
    by (rule results_cache_of_Inr)
  let ?fast = "fast_path_record (api_source_of p) k"
  have c0: "c0 (Key k) = ?fast"
    using fast_path_loop_cache [of "api_source_of p" "unique_tuples df" Map.empty "[]" k]
      fast assms(2)
    by (cases ?fast) auto
  have todo: "k \<in> set (tuples_to_process p df) \<longleftrightarrow> ?fast = None"
    using assms(2) by (simp add: tuples_to_process_eq)
  have um1: "stage1_unmatched e p (tuples_to_process p df) = um1"
    by (rule stage1_unmatched_eq [OF st1])
  have in_um1: "k \<in> set um1 \<longleftrightarrow> ?fast = None \<and> stage1_record e p k = None"
    using stage1_unmatched_set [OF st1] todo by auto
  have c1: "c1 (Key k) =
      (if ?fast = None \<and> stage1_record e p k \<noteq> None then stage1_record e p k else ?fast)"
    using stage1_cache [OF st1, of k] todo c0 by simp
  show ?thesis
    unfolding C final_record_def um1
    by (auto simp: final_unmatched_cache stage2_cache stage2_unmatched in_um1 c1
          split: option.splits)
qed

lemma results_cache_sentinel:
  assumes "results_cache_of e p df = Inr C"
  shows "C IS_TRULY_EMPTY = Some (truly_empty_record p)"
  using assms by (auto elim!: results_cache_of_Inr)

lemma results_cache_returns:
  assumes "\<not> pool_fails_stage1 e"
  shows "\<exists>C. results_cache_of e p df = Inr C"
proof -
  obtain c0 h where
    fast: "fast_path_loop (api_source_of p) (unique_tuples df) (Map.empty, []) = (c0, h)"
    by (cases "fast_path_loop (api_source_of p) (unique_tuples df) (Map.empty, [])") auto
  obtain x where "stage1 e p c0 (tuples_to_process p df) = Inr x"
    using stage1_returns [OF assms] by blast
  with fast show ?thesis
    by (cases x) (simp add: results_cache_of_def split: prod.splits)
qed

lemma run_Inr:
  assumes "get_worms_match_for_dataframe e p
             \<lparr>verbatimIdentification_dtype = d, rows = df\<rparr> = Inr out"
  obtains C where "results_cache_of e p df = Inr C"
    and "out = map (\<lambda>r. (r, C (map_key_of r))) df"
  using assms
  by (auto simp: get_worms_match_for_dataframe_def split: if_splits sum.splits)

lemma run_returns:
  assumes "\<not> pool_fails_stage1 e"
  shows "\<exists>out. get_worms_match_for_dataframe e p
                 \<lparr>verbatimIdentification_dtype = object_dtype, rows = df\<rparr> = Inr out"
  using results_cache_returns [OF assms, of p df]
  by (auto simp: get_worms_match_for_dataframe_def)

text \<open>On a column of dtype \<open>float64\<close> the run raises, whatever the rows.\<close>

lemma run_float64_column:
  "get_worms_match_for_dataframe e p
     \<lparr>verbatimIdentification_dtype = float64_dtype, rows = df\<rparr> = Inl AttributeError"
  by (simp add: get_worms_match_for_dataframe_def)

text \<open>The exceptions that leave a run.\<close>

lemma run_raises:
  assumes "get_worms_match_for_dataframe e p occurrence_df = Inl ex"
  shows "ex = AttributeError \<and> verbatimIdentification_dtype occurrence_df \<noteq> object_dtype \<or>
         ex = PoolError \<and> pool_fails_stage1 e"
  using assms
  by (auto simp: get_worms_match_for_dataframe_def results_cache_of_def
        split: if_splits sum.splits prod.splits dest: stage1_fails_only_by_pool)

text \<open>The row of the result at an index, for a row that keeps its tuple as key and for
  a row of the sentinel key.\<close>

lemma run_row_key:
  assumes "get_worms_match_for_dataframe e p
             \<lparr>verbatimIdentification_dtype = d, rows = df\<rparr> = Inr out"
    and "i < length df"
    and "\<not> empty_verbatim_mask (df ! i)"
  shows "out ! i =
           (df ! i,
            Some (final_record e p df (verbatimIdentification (df ! i), assay_name (df ! i))))"
proof -
  from assms(1) obtain C where C: "results_cache_of e p df = Inr C"
    and out: "out = map (\<lambda>r. (r, C (map_key_of r))) df"
    by (rule run_Inr)
  have "(verbatimIdentification (df ! i), assay_name (df ! i)) \<in> set (unique_tuples df)"
    using assms(2,3) by (simp add: row_key_in_unique_tuples)
  then show ?thesis
    using results_cache_key [OF C] assms(2,3) by (simp add: out map_key_of_def)
qed

lemma run_row_sentinel:
  assumes "get_worms_match_for_dataframe e p
             \<lparr>verbatimIdentification_dtype = d, rows = df\<rparr> = Inr out"
    and "i < length df"
    and "empty_verbatim_mask (df ! i)"
  shows "out ! i = (df ! i, Some (truly_empty_record p))"
proof -
  from assms(1) obtain C where C: "results_cache_of e p df = Inr C"
    and out: "out = map (\<lambda>r. (r, C (map_key_of r))) df"
    by (rule run_Inr)
  show ?thesis
    using results_cache_sentinel [OF C] assms(2,3) by (simp add: out map_key_of_def)
qed

lemma run_length:
  assumes "get_worms_match_for_dataframe e p
             \<lparr>verbatimIdentification_dtype = d, rows = df\<rparr> = Inr out"
  shows "length out = length df"
  using assms by (auto elim!: run_Inr)

lemma run_stage1_unmatched:
  assumes "get_worms_match_for_dataframe e p
             \<lparr>verbatimIdentification_dtype = d, rows = df\<rparr> = Inr out"
  shows "set (stage1_unmatched e p (tuples_to_process p df)) =
           {k \<in> set (unique_tuples df).
              fast_path_record (api_source_of p) k = None \<and> stage1_record e p k = None}"
proof -
  from assms obtain C where "results_cache_of e p df = Inr C"
    by (rule run_Inr)
  then obtain c0 c1 um1 where st1: "stage1 e p c0 (tuples_to_process p df) = Inr (c1, um1)"
    by (rule results_cache_of_Inr)
  show ?thesis
    using stage1_unmatched_set [OF st1] stage1_unmatched_eq [OF st1]
    by (auto simp: tuples_to_process_eq)
qed

subsection \<open>Rows of empty or unassigned input\<close>

lemma incertae_sedis_fields:
  "dget (incertae_sedis_record api label cleaned) ''scientificName'' = PyStr ''incertae sedis''"
  "dget (incertae_sedis_record api label cleaned) ''match_type_debug'' = PyStr label"
  "dget (incertae_sedis_record api label cleaned) ''cleanedTaxonomy'' = cleaned"
  by (simp_all add: incertae_sedis_record_def DWC_RANKS_STD_def dget_def)

lemma mask_of_empty_inputs:
  "verbatimIdentification r \<in> {PyStr '''', PyStr ''  '', PyStr ''Unassigned''} \<Longrightarrow>
   empty_verbatim_mask r"
proof -
  have "strip '''' = []" "strip ''  '' = []" "lower (strip ''Unassigned'') = ''unassigned''"
    by code_simp+
  then show "verbatimIdentification r \<in> {PyStr '''', PyStr ''  '', PyStr ''Unassigned''} \<Longrightarrow>
    empty_verbatim_mask r"
    by (auto simp: empty_verbatim_mask_def)
qed

lemma mask_of_unassigned_semicolon:
  "verbatimIdentification r = PyStr ''unassigned;'' \<Longrightarrow> \<not> empty_verbatim_mask r"
proof -
  have "strip ''unassigned;'' = ''unassigned;''"
    "lower (strip ''unassigned;'') = ''unassigned;''"
    by code_simp+
  then show "verbatimIdentification r = PyStr ''unassigned;'' \<Longrightarrow> \<not> empty_verbatim_mask r"
    by (simp add: empty_verbatim_mask_def isna_def)
qed

lemma fast_path_unassigned_semicolon:
  "fast_path_record api (PyStr ''unassigned;'', a) =
     Some (incertae_sedis_record api ''incertae_sedis_unassigned'' (PyStr ''unassigned''))"
proof -
  have "cleaned_verbatim_of (PyStr ''unassigned;'') = ''unassigned''"
    "lower ''unassigned'' = ''unassigned''"
    by code_simp+
  then show ?thesis
    by (simp add: fast_path_record_def Let_def)
qed

text \<open>
  Claim C2, corrected. After the function returns, a row whose verbatimIdentification is
  the empty string, two spaces or \<open>Unassigned\<close> has the sentinel key, whatever its assay, and
  carries the incertae sedis record with the label \<open>incertae_sedis_truly_empty_fallback\<close>.
  A row whose verbatimIdentification is \<open>unassigned;\<close> keeps the key made of its own
  verbatimIdentification and assay, the fast path caches for that key the incertae sedis
  record with the label \<open>incertae_sedis_unassigned\<close>, and the row carries that record. In
  all four cases scientificName is \<open>incertae sedis\<close>.
\<close>

theorem C2_truly_empty_detection:
  assumes "get_worms_match_for_dataframe e p
             \<lparr>verbatimIdentification_dtype = d, rows = df\<rparr> = Inr out"
    and "i < length df"
  shows
    "(verbatimIdentification (df ! i) \<in> {PyStr '''', PyStr ''  '', PyStr ''Unassigned''} \<longrightarrow>
        map_key_of (df ! i) = IS_TRULY_EMPTY \<and>
        out ! i =
          (df ! i,
           Some (incertae_sedis_record (api_source_of p)
                   ''incertae_sedis_truly_empty_fallback'' (PyStr '''')))) \<and>
     (verbatimIdentification (df ! i) = PyStr ''unassigned;'' \<longrightarrow>
        map_key_of (df ! i) = Key (PyStr ''unassigned;'', assay_name (df ! i)) \<and>
        fast_path_record (api_source_of p) (PyStr ''unassigned;'', assay_name (df ! i)) =
          Some (incertae_sedis_record (api_source_of p)
                  ''incertae_sedis_unassigned'' (PyStr ''unassigned'')) \<and>
        out ! i =
          (df ! i,
           Some (incertae_sedis_record (api_source_of p)
                   ''incertae_sedis_unassigned'' (PyStr ''unassigned'')))) \<and>
     (verbatimIdentification (df ! i) \<in>
          {PyStr '''', PyStr ''  '', PyStr ''Unassigned'', PyStr ''unassigned;''} \<longrightarrow>
        (\<exists>rec. snd (out ! i) = Some rec \<and>
           dget rec ''scientificName'' = PyStr ''incertae sedis'' \<and>
           dget rec ''match_type_debug'' \<in>
             {PyStr ''incertae_sedis_unassigned'', PyStr ''incertae_sedis_truly_empty_fallback''}))"
proof -
  have empty: "map_key_of (df ! i) = IS_TRULY_EMPTY \<and>
      out ! i =
        (df ! i,
         Some (incertae_sedis_record (api_source_of p)
                 ''incertae_sedis_truly_empty_fallback'' (PyStr '''')))"
    if "verbatimIdentification (df ! i) \<in> {PyStr '''', PyStr ''  '', PyStr ''Unassigned''}"
    using run_row_sentinel [OF assms mask_of_empty_inputs [OF that]]
      mask_of_empty_inputs [OF that]
    by (simp add: map_key_of_def truly_empty_record_def)
  have semi: "map_key_of (df ! i) = Key (PyStr ''unassigned;'', assay_name (df ! i)) \<and>
      fast_path_record (api_source_of p) (PyStr ''unassigned;'', assay_name (df ! i)) =
        Some (incertae_sedis_record (api_source_of p)
                ''incertae_sedis_unassigned'' (PyStr ''unassigned'')) \<and>
      out ! i =
        (df ! i,
         Some (incertae_sedis_record (api_source_of p)
                 ''incertae_sedis_unassigned'' (PyStr ''unassigned'')))"
    if "verbatimIdentification (df ! i) = PyStr ''unassigned;''"
    using run_row_key [OF assms mask_of_unassigned_semicolon [OF that]]
      mask_of_unassigned_semicolon [OF that] that
    by (simp add: map_key_of_def final_record_def fast_path_unassigned_semicolon)
  show ?thesis
    using empty semi by (auto simp: incertae_sedis_fields)
qed

text \<open>The theorem at rows 1 and 3 of the small run: \<open>unassigned;\<close> and two spaces.\<close>

theorem C2_truly_empty_detection_witness:
  "\<exists>out. get_worms_match_for_dataframe example_env example_params
        \<lparr>verbatimIdentification_dtype = object_dtype, rows = example_df\<rparr> = Inr out \<and>
     map_key_of (example_df ! 3) = IS_TRULY_EMPTY \<and>
     snd (out ! 3) =
       Some (incertae_sedis_record ''WoRMS'' ''incertae_sedis_truly_empty_fallback'' (PyStr '''')) \<and>
     map_key_of (example_df ! 1) = Key (PyStr ''unassigned;'', ''A16S'') \<and>
     snd (out ! 1) =
       Some (incertae_sedis_record ''WoRMS'' ''incertae_sedis_unassigned'' (PyStr ''unassigned''))"
proof -
  have "\<not> pool_fails_stage1 example_env"
    by (simp add: example_env_def)
  then obtain out where
    run: "get_worms_match_for_dataframe example_env example_params
        \<lparr>verbatimIdentification_dtype = object_dtype, rows = example_df\<rparr> = Inr out"
    using run_returns by blast
  have api: "api_source_of example_params = ''WoRMS''"
    by (simp add: api_source_of_def example_params_def)
  have len: "3 < length example_df" "1 < length example_df"
    by (simp_all add: example_df_def)
  have rows: "verbatimIdentification (example_df ! 3) = PyStr ''  ''"
    "verbatimIdentification (example_df ! 1) = PyStr ''unassigned;''"
    "assay_name (example_df ! 1) = ''A16S''"
    by (simp_all add: example_df_def)
  show ?thesis
    using C2_truly_empty_detection [OF run len(1)] C2_truly_empty_detection [OF run len(2)]
      run rows api
    by simp
qed

text \<open>
  Claim C2 as stated fails: a row whose verbatimIdentification is \<open>unassigned;\<close> does not
  get the sentinel key, and two such rows of different assays do not share their key.
\<close>

theorem C2_unassigned_semicolon_not_sentinel:
  "map_key_of \<lparr> verbatimIdentification = PyStr ''unassigned;'', assay_name = ''A16S'' \<rparr>
     \<noteq> IS_TRULY_EMPTY \<and>
   map_key_of \<lparr> verbatimIdentification = PyStr ''unassigned;'', assay_name = ''A16S'' \<rparr>
     \<noteq> map_key_of \<lparr> verbatimIdentification = PyStr ''unassigned;'', assay_name = ''B18S'' \<rparr>"
  by (simp add: map_key_of_def mask_of_unassigned_semicolon)

subsection \<open>The kingdom-only shortcut\<close>

lemma lower_eukaryota_not_missing:
  assumes "lower (cleaned_verbatim_of v) = ''eukaryota''"
  shows "\<not> isna v"
proof
  assume "isna v"
  then consider "v = PyNone" | "v = PyNaN"
    by (auto simp: isna_def)
  then show False
  proof cases
    case 1
    have "lower (cleaned_verbatim_of PyNone) = ''none''" by code_simp
    with assms 1 show False by simp
  next
    case 2
    have "lower (cleaned_verbatim_of PyNaN) = ''nan''" by code_simp
    with assms 2 show False by simp
  qed
qed

lemma fast_path_eukaryota:
  assumes "lower (cleaned_verbatim_of v) = ''eukaryota''"
  shows "fast_path_record api (v, a) =
           Some (incertae_sedis_record api
                   (''incertae_sedis_simple_case_'' @ cleaned_verbatim_of v)
                   (PyStr (cleaned_verbatim_of v)))"
proof -
  have "cleaned_verbatim_of v \<noteq> []"
    using assms by (auto simp: lower_def)
  then show ?thesis
    using assms lower_eukaryota_not_missing [OF assms]
    by (simp add: fast_path_record_def Let_def)
qed

lemma fast_path_other:
  assumes "cleaned_verbatim_of v \<noteq> []"
    and "lower (cleaned_verbatim_of v) \<notin>
           set [''unassigned'', ''nan'', ''none'', '''', ''eukaryota'']"
    and "\<not> isna v"
  shows "fast_path_record api (v, a) = None"
  using assms by (simp add: fast_path_record_def Let_def)

text \<open>
  Claim C8. For every row that keeps the tuple of its verbatimIdentification and assay as
  key: when the cleaned lineage (trimmed, trailing semicolons stripped, trimmed) is
  \<open>eukaryota\<close> up to case, the fast path caches the incertae sedis record labelled
  \<open>incertae_sedis_simple_case_\<close> followed by the cleaned lineage, the row carries that record
  after the run, whatever the remote service answers, and the key is not among the tuples
  handed to the Prematch and Batch stages; in the record of the row scientificName is
  \<open>incertae sedis\<close>, scientificNameID is \<open>urn:lsid:marinespecies.org:taxname:12\<close>,
  match_type_debug is \<open>incertae_sedis_simple_case_\<close> followed by the cleaned lineage, and
  cleanedTaxonomy is the cleaned lineage. When the cleaned lineage is not empty and is
  none of \<open>unassigned\<close>, \<open>nan\<close>, \<open>none\<close>, \<open>eukaryota\<close> up to case, as for \<open>Bacteria\<close>, the fast
  path caches nothing for the key and the key is among the tuples handed to the stages.
\<close>

theorem C8_kingdom_only_shortcut:
  assumes "get_worms_match_for_dataframe e p
             \<lparr>verbatimIdentification_dtype = d, rows = df\<rparr> = Inr out"
    and "i < length df"
    and "\<not> empty_verbatim_mask (df ! i)"
    and "v = verbatimIdentification (df ! i)" and "a = assay_name (df ! i)"
  shows
    "(lower (cleaned_verbatim_of v) = ''eukaryota'' \<longrightarrow>
        fast_path_record (api_source_of p) (v, a) =
          Some (incertae_sedis_record (api_source_of p)
                  (''incertae_sedis_simple_case_'' @ cleaned_verbatim_of v)
                  (PyStr (cleaned_verbatim_of v))) \<and>
        out ! i =
          (df ! i,
           Some (incertae_sedis_record (api_source_of p)
                   (''incertae_sedis_simple_case_'' @ cleaned_verbatim_of v)
                   (PyStr (cleaned_verbatim_of v)))) \<and>
        (\<exists>rec. out ! i = (df ! i, Some rec) \<and>
           dget rec ''scientificName'' = PyStr ''incertae sedis'' \<and>
           dget rec ''scientificNameID'' = PyStr ''urn:lsid:marinespecies.org:taxname:12'' \<and>
           dget rec ''match_type_debug'' =
             PyStr (''incertae_sedis_simple_case_'' @ cleaned_verbatim_of v) \<and>
           dget rec ''cleanedTaxonomy'' = PyStr (cleaned_verbatim_of v)) \<and>
        (v, a) \<notin> set (tuples_to_process p df)) \<and>
     (cleaned_verbatim_of v \<noteq> [] \<and>
      lower (cleaned_verbatim_of v) \<notin>
        set [''unassigned'', ''nan'', ''none'', '''', ''eukaryota''] \<and>
      \<not> isna v \<longrightarrow>
        fast_path_record (api_source_of p) (v, a) = None \<and>
        (v, a) \<in> set (tuples_to_process p df)) \<and>
     (cleaned_verbatim_of v = ''Bacteria'' \<and> \<not> isna v \<longrightarrow>
        fast_path_record (api_source_of p) (v, a) = None \<and>
        (v, a) \<in> set (tuples_to_process p df))"
proof -
  have fields:
    "dget (incertae_sedis_record api label cleaned) ''scientificName'' = PyStr ''incertae sedis''"
    "dget (incertae_sedis_record api label cleaned) ''scientificNameID''
       = PyStr ''urn:lsid:marinespecies.org:taxname:12''"
    "dget (incertae_sedis_record api label cleaned) ''match_type_debug'' = PyStr label"
    "dget (incertae_sedis_record api label cleaned) ''cleanedTaxonomy'' = cleaned"
    for api label cleaned
    by (simp_all add: incertae_sedis_record_def DWC_RANKS_STD_def dget_def)
  have key: "(v, a) \<in> set (unique_tuples df)"
    using assms(2-5) by (simp add: row_key_in_unique_tuples)
  have row: "out ! i = (df ! i, Some (final_record e p df (v, a)))"
    using run_row_key [OF assms(1-3)] assms(4,5) by simp
  have bacteria: "lower ''Bacteria'' = ''bacteria''"
    by code_simp
  have shortcut:
    "fast_path_record (api_source_of p) (v, a) =
       Some (incertae_sedis_record (api_source_of p)
               (''incertae_sedis_simple_case_'' @ cleaned_verbatim_of v)
               (PyStr (cleaned_verbatim_of v))) \<and>
     out ! i =
       (df ! i,
        Some (incertae_sedis_record (api_source_of p)
                (''incertae_sedis_simple_case_'' @ cleaned_verbatim_of v)
                (PyStr (cleaned_verbatim_of v)))) \<and>
     (\<exists>rec. out ! i = (df ! i, Some rec) \<and>
        dget rec ''scientificName'' = PyStr ''incertae sedis'' \<and>
        dget rec ''scientificNameID'' = PyStr ''urn:lsid:marinespecies.org:taxname:12'' \<and>
        dget rec ''match_type_debug'' =
          PyStr (''incertae_sedis_simple_case_'' @ cleaned_verbatim_of v) \<and>
        dget rec ''cleanedTaxonomy'' = PyStr (cleaned_verbatim_of v)) \<and>
     (v, a) \<notin> set (tuples_to_process p df)"
    if "lower (cleaned_verbatim_of v) = ''eukaryota''"
    using fast_path_eukaryota [OF that, of "api_source_of p" a] row
    by (simp add: final_record_def tuples_to_process_eq fields)
  have other:
    "fast_path_record (api_source_of p) (v, a) = None \<and> (v, a) \<in> set (tuples_to_process p df)"
    if "cleaned_verbatim_of v \<noteq> []"
      and "lower (cleaned_verbatim_of v) \<notin>
             set [''unassigned'', ''nan'', ''none'', '''', ''eukaryota'']"
      and "\<not> isna v"
    using fast_path_other [OF that, of "api_source_of p" a] key
    by (simp add: tuples_to_process_eq)
  have "fast_path_record (api_source_of p) (v, a) = None \<and> (v, a) \<in> set (tuples_to_process p df)"
    if "cleaned_verbatim_of v = ''Bacteria''" and "\<not> isna v"
    using other that bacteria by simp
  with shortcut other show ?thesis
    by blast
qed

text \<open>The theorem at rows 2 and 6 of the small run: \<open>Eukaryota;\<close> and \<open>Bacteria\<close>.\<close>

theorem C8_kingdom_only_shortcut_witness:
  "\<exists>out. get_worms_match_for_dataframe example_env example_params
        \<lparr>verbatimIdentification_dtype = object_dtype, rows = example_df\<rparr> = Inr out \<and>
     out ! 2 =
       (example_df ! 2,
        Some (incertae_sedis_record ''WoRMS'' ''incertae_sedis_simple_case_Eukaryota''
                (PyStr ''Eukaryota''))) \<and>
     (\<exists>rec. out ! 2 = (example_df ! 2, Some rec) \<and>
        dget rec ''scientificName'' = PyStr ''incertae sedis'' \<and>
        dget rec ''match_type_debug'' = PyStr ''incertae_sedis_simple_case_Eukaryota'' \<and>
        dget rec ''cleanedTaxonomy'' = PyStr ''Eukaryota'') \<and>
     (PyStr ''Eukaryota;'', ''B18S'') \<notin> set (tuples_to_process example_params example_df) \<and>
     (PyStr ''Bacteria'', ''B18S'') \<in> set (tuples_to_process example_params example_df)"
proof -
  have fields:
    "dget (incertae_sedis_record api label cleaned) ''scientificName'' = PyStr ''incertae sedis''"
    "dget (incertae_sedis_record api label cleaned) ''scientificNameID''
       = PyStr ''urn:lsid:marinespecies.org:taxname:12''"
    "dget (incertae_sedis_record api label cleaned) ''match_type_debug'' = PyStr label"
    "dget (incertae_sedis_record api label cleaned) ''cleanedTaxonomy'' = cleaned"
    for api label cleaned
    by (simp_all add: incertae_sedis_record_def DWC_RANKS_STD_def dget_def)
  have "\<not> pool_fails_stage1 example_env"
    by (simp add: example_env_def)
  then obtain out where
    run: "get_worms_match_for_dataframe example_env example_params
        \<lparr>verbatimIdentification_dtype = object_dtype, rows = example_df\<rparr> = Inr out"
    using run_returns by blast
  have api: "api_source_of example_params = ''WoRMS''"
    by (simp add: api_source_of_def example_params_def)
  have len: "2 < length example_df" "6 < length example_df"
    by (simp_all add: example_df_def)
  have mask: "\<not> empty_verbatim_mask (example_df ! 2)" "\<not> empty_verbatim_mask (example_df ! 6)"
    by code_simp+
  have rows: "PyStr ''Eukaryota;'' = verbatimIdentification (example_df ! 2)"
    "''B18S'' = assay_name (example_df ! 2)"
    "PyStr ''Bacteria'' = verbatimIdentification (example_df ! 6)"
    "''B18S'' = assay_name (example_df ! 6)"
    by (simp_all add: example_df_def)
  have cleaned: "cleaned_verbatim_of (PyStr ''Eukaryota;'') = ''Eukaryota''"
    "lower ''Eukaryota'' = ''eukaryota''"
    "cleaned_verbatim_of (PyStr ''Bacteria'') = ''Bacteria''"
    by code_simp+
  show ?thesis
    using C8_kingdom_only_shortcut [OF run len(1) mask(1) rows(1,2)]
      C8_kingdom_only_shortcut [OF run len(2) mask(2) rows(3,4)]
      run cleaned api
    by (simp add: isna_def fields)
qed

subsection \<open>A lineage cleaned to \<open>eukaryota\<close> has a term\<close>

lemma dropWhile_decomp:
  "\<exists>l. s = l @ dropWhile P s \<and> (\<forall>x \<in> set l. P x)"
  by (rule exI [of _ "takeWhile P s"]) (auto dest: set_takeWhileD)

lemma rev_dropWhile_decomp:
  "\<exists>r. s = rev (dropWhile P (rev s)) @ r \<and> (\<forall>x \<in> set r. P x)"
proof -
  obtain l where l: "rev s = l @ dropWhile P (rev s)" and P: "\<forall>x \<in> set l. P x"
    using dropWhile_decomp [of "rev s" P] by blast
  have "s = rev (dropWhile P (rev s)) @ rev l"
    using arg_cong [OF l, of rev] by simp
  with P show ?thesis
    by (intro exI [of _ "rev l"]) simp
qed

lemma strip_decomp:
  "\<exists>l r. s = l @ strip s @ r \<and> (\<forall>x \<in> set l. py_isspace x) \<and> (\<forall>x \<in> set r. py_isspace x)"
proof -
  obtain l where l: "s = l @ dropWhile py_isspace s" and sl: "\<forall>x \<in> set l. py_isspace x"
    using dropWhile_decomp [of s py_isspace] by blast
  obtain r where r: "dropWhile py_isspace s = strip s @ r" and sr: "\<forall>x \<in> set r. py_isspace x"
    using rev_dropWhile_decomp [of "dropWhile py_isspace s" py_isspace]
    by (auto simp: strip_def)
  from l r have "s = l @ strip s @ r" by simp
  with sl sr show ?thesis by blast
qed

lemma rstrip_semicolon_decomp:
  "\<exists>r. s = rstrip_semicolon s @ r \<and> (\<forall>x \<in> set r. x = CHR '';'')"
  using rev_dropWhile_decomp [of s "\<lambda>c. c = CHR '';''"]
  by (simp add: rstrip_semicolon_def)

lemma dropWhile_prefix:
  "\<forall>x \<in> set xs. P x \<Longrightarrow> \<not> P y \<Longrightarrow> dropWhile P (xs @ y # ys) = y # ys"
  by (induction xs) auto

lemma strip_padded:
  assumes "\<forall>x \<in> set l. py_isspace x" and "\<forall>x \<in> set r. py_isspace x"
    and "\<forall>x \<in> set c. \<not> py_isspace x"
  shows "strip (l @ c @ r) = c"
proof (cases "c = []")
  case True
  have "\<forall>x \<in> set (l @ r). py_isspace x"
    using assms(1,2) by auto
  then have "dropWhile py_isspace (l @ r) = []"
    by (simp only: dropWhile_eq_Nil_conv)
  then have "strip (l @ r) = []"
    unfolding strip_def by (simp only: rev.simps dropWhile.simps)
  with True show ?thesis
    by simp
next
  case False
  then obtain a c' where c: "c = a # c'" by (cases c) auto
  from False obtain c'' b where c2: "c = c'' @ [b]" by (cases c rule: rev_cases) auto
  have a: "\<not> py_isspace a"
    using assms(3) c by simp
  have b: "\<not> py_isspace b"
    using assms(3) c2 by simp
  have "dropWhile py_isspace (l @ a # c' @ r) = a # c' @ r"
    using assms(1) a by (rule dropWhile_prefix)
  then have lead: "dropWhile py_isspace (l @ c @ r) = c @ r"
    by (simp add: c)
  have "dropWhile py_isspace (rev r @ b # rev c'') = b # rev c''"
    using assms(2) b by (intro dropWhile_prefix) auto
  then have trail: "dropWhile py_isspace (rev (c @ r)) = rev c"
    by (simp add: c2)
  show ?thesis
    by (simp only: strip_def lead trail rev_rev_ident)
qed

lemma split_first_piece:
  assumes "sep \<notin> set a"
  shows "split a sep = [a]" and "split (a @ sep # b) sep = a # split b sep"
  using assms by (induction a) (auto split: list.splits)

lemma replace_absent:
  "p \<notin> set s \<Longrightarrow> replace s (p # ps) new = s"
  by (induction s) auto

lemma contains_absent:
  "p \<notin> set s \<Longrightarrow> \<not> contains s (p # ps)"
  by (induction s) auto

text \<open>A character that \<open>str.lower\<close> sends to a letter of \<open>eukaryota\<close> is a letter.\<close>

lemma lower_char_letter:
  assumes "lower_char x \<in> set ''eukaryota''"
  shows "\<not> py_isspace x \<and> x \<noteq> CHR '';'' \<and> x \<notin> set ''_-/'' \<and> \<not> py_isdigit x"
proof (cases "map_of upper_case_letters x")
  case None
  with assms have "x \<in> set ''eukaryota''"
    by (simp add: lower_char_def)
  then show ?thesis
    by (auto simp: py_isspace_def py_isdigit_def re_digit_def)
next
  case (Some l)
  then have "(x, l) \<in> set upper_case_letters"
    by (rule map_of_SomeD)
  then have "x \<in> fst ` set upper_case_letters"
    by force
  then show ?thesis
    by (auto simp: upper_case_letters_def py_isspace_def py_isdigit_def re_digit_def)
qed

lemma cleaned_eukaryota_has_term:
  assumes "lower (cleaned_verbatim_of v) = ''eukaryota''"
  shows "parse_semicolon_taxonomy v \<noteq> []"
proof -
  let ?c = "cleaned_verbatim_of v"
  let ?f = "\<lambda>c. if c \<in> set ''_-/'' then CHR '' '' else c"
  have letters: "\<not> py_isspace x \<and> x \<noteq> CHR '';'' \<and> x \<notin> set ''_-/'' \<and> \<not> py_isdigit x"
    if "x \<in> set ?c" for x
  proof -
    have "lower_char x \<in> set (lower ?c)"
      using that by (simp add: lower_def)
    then show ?thesis
      using assms lower_char_letter [of x] by simp
  qed
  have len: "length ?c = 9"
    using arg_cong [OF assms, of length] by (simp add: lower_def)
  then have nonempty: "?c \<noteq> []" by auto
  have not_missing: "\<not> isna v"
    by (rule lower_eukaryota_not_missing [OF assms])
  let ?s = "py_str v"
  obtain l1 r1 where s: "?s = l1 @ strip ?s @ r1"
    and l1: "\<forall>x \<in> set l1. py_isspace x" and r1: "\<forall>x \<in> set r1. py_isspace x"
    using strip_decomp [of ?s] by blast
  obtain semis where s1: "strip ?s = rstrip_semicolon (strip ?s) @ semis"
    and semis: "\<forall>x \<in> set semis. x = CHR '';''"
    using rstrip_semicolon_decomp [of "strip ?s"] by blast
  obtain l2 r2 where s2: "rstrip_semicolon (strip ?s) = l2 @ ?c @ r2"
    and l2: "\<forall>x \<in> set l2. py_isspace x" and r2: "\<forall>x \<in> set r2. py_isspace x"
    using strip_decomp [of "rstrip_semicolon (strip ?s)"] by (auto simp: cleaned_verbatim_of_def)
  have whole: "?s = (l1 @ l2) @ ?c @ r2 @ semis @ r1"
    using s s1 s2 by simp
  have "strip ?s \<noteq> []"
    using s1 s2 nonempty by auto
  then have parse: "parse_semicolon_taxonomy v =
      List.map_filter clean_name (split (map ?f ?s) CHR '';'')"
    using not_missing
    by (simp add: parse_semicolon_taxonomy_def separators_to_spaces del: set_simps)
  have space_not_sep: "?f x = x" if "py_isspace x" for x
    using that by (auto simp: py_isspace_def)
  have space_not_semicolon: "x \<noteq> CHR '';''" if "py_isspace x" for x
    using that by (auto simp: py_isspace_def)
  have no_semicolon: "CHR '';'' \<notin> set w" if "\<forall>x \<in> set w. py_isspace x" for w
    using that space_not_semicolon by blast
  have no_semicolon_c: "CHR '';'' \<notin> set ?c"
    using letters [of "CHR '';''"] by blast
  have fmap: "map ?f ?s = ?s"
  proof (rule map_idI)
    fix x assume "x \<in> set ?s"
    then have "x \<in> set ((l1 @ l2) @ ?c @ r2 @ semis @ r1)"
      using whole by simp
    then consider "py_isspace x" | "x \<in> set ?c" | "x = CHR '';''"
      using l1 l2 r1 r2 semis by auto
    then show "?f x = x"
      using space_not_sep letters by cases auto
  qed
  obtain first rest where pieces: "split ?s CHR '';'' = first # rest"
    and first: "strip first = ?c"
  proof (cases semis)
    case Nil
    have no_semi: "CHR '';'' \<notin> set ?s"
      using no_semicolon [OF l1] no_semicolon [OF l2] no_semicolon [OF r1] no_semicolon [OF r2]
        no_semicolon_c
      by (subst whole) (simp add: Nil)
    have "?s = (l1 @ l2) @ ?c @ (r2 @ r1)"
      using whole Nil by simp
    moreover have "strip ((l1 @ l2) @ ?c @ (r2 @ r1)) = ?c"
      using strip_padded [of "l1 @ l2" "r2 @ r1" ?c] l1 l2 r1 r2 letters by auto
    ultimately have "strip ?s = ?c"
      by (rule ssubst)
    show ?thesis
      by (rule that [OF split_first_piece(1) [OF no_semi] \<open>strip ?s = ?c\<close>])
  next
    case (Cons x more)
    then have x: "x = CHR '';''" using semis by simp
    let ?a = "(l1 @ l2) @ ?c @ r2"
    have no_semi: "CHR '';'' \<notin> set ?a"
      using no_semicolon [OF l1] no_semicolon [OF l2] no_semicolon [OF r2] no_semicolon_c
      by simp
    have "?s = ?a @ CHR '';'' # (more @ r1)"
      using whole Cons x by simp
    then have "split ?s CHR '';'' = ?a # split (more @ r1) CHR '';''"
      using split_first_piece(2) [OF no_semi, of "more @ r1"] by simp
    moreover have "strip ?a = ?c"
      using strip_padded [of "l1 @ l2" r2 ?c] l1 l2 r2 letters by auto
    ultimately show ?thesis
      using that by blast
  qed
  have "py_isspace CHR '' ''"
    by (simp add: py_isspace_def)
  then have no_space: "CHR '' '' \<notin> set ?c"
    using letters [of "CHR '' ''"] by blast
  have "lower ?c \<noteq> ''unassigned''"
    using assms by simp
  moreover have "replace (replace ?c '' sp.'' []) '' spp.'' [] = ?c"
    using no_space by (simp add: replace_absent)
  moreover have "\<not> list_ex py_isdigit ?c"
    using letters by (auto simp: list_ex_iff)
  moreover have "\<not> contains ?c ''  ''"
    using no_space by (simp add: contains_absent)
  moreover have "strip ?c = ?c"
    using strip_padded [of "[]" "[]" ?c] letters by auto
  ultimately have kept: "clean_name first = Some ?c"
    using first nonempty len by (simp add: clean_name_def Let_def)
  have "parse_semicolon_taxonomy v = List.map_filter clean_name (first # rest)"
    by (simp only: parse fmap pieces)
  with kept show ?thesis
    by simp
qed

subsection \<open>Keys without terms\<close>

lemma stage1_record_no_target:
  "prematch_target p k = None \<Longrightarrow> stage1_record e p k = None"
  by (simp add: stage1_record_def)

lemma stage2_record_no_terms:
  "terms_to_scan p k = None \<Longrightarrow> stage2_record e p um k = None"
  by (simp add: stage2_record_def match_key_def)

lemma no_terms:
  assumes "parse_semicolon_taxonomy v = []"
  shows "prematch_target p (v, a) = None" and "\<not> consults_dictionary p (v, a)"
    and "terms_to_scan p (v, a) = None"
    and "no_match_record p (v, a) =
           incertae_sedis_record (api_source_of p) ''Failed_All_Stages_NoMatch'' v"
  using assms
  by (simp_all add: prematch_target_def consults_dictionary_def terms_to_scan_def
        no_match_record_def cleaned_taxonomy_of_def)

lemma fast_path_leaves_termless:
  assumes "cleaned_verbatim_of v \<noteq> []"
    and "lower (cleaned_verbatim_of v) \<notin> set [''unassigned'', ''nan'', ''none'', '''']"
    and "\<not> isna v"
    and "parse_semicolon_taxonomy v = []"
  shows "fast_path_record api (v, a) = None"
proof -
  have "lower (cleaned_verbatim_of v) \<noteq> ''eukaryota''"
    using cleaned_eukaryota_has_term [of v] assms(4) by blast
  with assms(1-3) show ?thesis
    by (intro fast_path_other) simp_all
qed

text \<open>
  Claim C10. For every row that keeps the tuple of its verbatimIdentification and assay as
  key and whose key is not truly empty for the fast path (its cleaned lineage is not empty
  and is none of \<open>unassigned\<close>, \<open>nan\<close>, \<open>none\<close> up to case, and the value is not missing):
  when the normalized term sequence of the verbatimIdentification is empty, the fast path
  caches nothing for the key, Stage 1 does not consult the local dictionary for it and
  leaves it among the unmatched tuples, Stage 2 sends it to the unmatched tuples before any scan,
  whatever the lookup table, and after the run the row carries the incertae sedis record
  labelled \<open>Failed_All_Stages_NoMatch\<close> whose cleanedTaxonomy is the raw
  verbatimIdentification: in the record of the row scientificName is \<open>incertae sedis\<close>,
  match_type_debug is \<open>Failed_All_Stages_NoMatch\<close>, and cleanedTaxonomy is the
  verbatimIdentification of the row, a string that is not the join of the (empty) term
  sequence.
\<close>

theorem C10_empty_term_sequence:
  assumes "get_worms_match_for_dataframe e p
             \<lparr>verbatimIdentification_dtype = d, rows = df\<rparr> = Inr out"
    and "i < length df"
    and "\<not> empty_verbatim_mask (df ! i)"
    and "v = verbatimIdentification (df ! i)" and "a = assay_name (df ! i)"
    and "cleaned_verbatim_of v \<noteq> []"
    and "lower (cleaned_verbatim_of v) \<notin> set [''unassigned'', ''nan'', ''none'', '''']"
    and "\<not> isna v"
    and "parse_semicolon_taxonomy v = []"
  shows
    "out ! i =
       (df ! i,
        Some (incertae_sedis_record (api_source_of p) ''Failed_All_Stages_NoMatch'' v)) \<and>
     (\<exists>rec s. out ! i = (df ! i, Some rec) \<and>
        dget rec ''scientificName'' = PyStr ''incertae sedis'' \<and>
        dget rec ''scientificNameID'' = PyStr ''urn:lsid:marinespecies.org:taxname:12'' \<and>
        dget rec ''match_type_debug'' = PyStr ''Failed_All_Stages_NoMatch'' \<and>
        dget rec ''cleanedTaxonomy'' = verbatimIdentification (df ! i) \<and>
        verbatimIdentification (df ! i) = PyStr s \<and>
        s \<noteq> join '';'' (parse_semicolon_taxonomy v)) \<and>
     fast_path_record (api_source_of p) (v, a) = None \<and>
     (v, a) \<notin> fst ` set (stage1_lookups p (tuples_to_process p df)) \<and>
     (v, a) \<in> set (stage1_unmatched e p (tuples_to_process p df)) \<and>
     terms_to_scan p (v, a) = None \<and>
     (\<forall>batch_lookup. match_key p batch_lookup (v, a) = None)"
proof -
  have fields:
    "dget (incertae_sedis_record api label cleaned) ''scientificName'' = PyStr ''incertae sedis''"
    "dget (incertae_sedis_record api label cleaned) ''scientificNameID''
       = PyStr ''urn:lsid:marinespecies.org:taxname:12''"
    "dget (incertae_sedis_record api label cleaned) ''match_type_debug'' = PyStr label"
    "dget (incertae_sedis_record api label cleaned) ''cleanedTaxonomy'' = cleaned"
    for api label cleaned
    by (simp_all add: incertae_sedis_record_def DWC_RANKS_STD_def dget_def)
  have row: "out ! i = (df ! i, Some (final_record e p df (v, a)))"
    using run_row_key [OF assms(1-3)] assms(4,5) by simp
  have fast: "fast_path_record (api_source_of p) (v, a) = None"
    by (rule fast_path_leaves_termless [OF assms(6-9)])
  note none = no_terms [OF assms(9), of p a]
  have key: "(v, a) \<in> set (unique_tuples df)"
    using assms(2-5) by (simp add: row_key_in_unique_tuples)
  have stage1: "(v, a) \<notin> fst ` set (stage1_lookups p (tuples_to_process p df))"
    "(v, a) \<in> set (stage1_unmatched e p (tuples_to_process p df))"
    using none key fast run_stage1_unmatched [OF assms(1)]
    by (simp_all add: stage1_lookups_keys stage1_record_no_target)
  have final: "final_record e p df (v, a) =
          incertae_sedis_record (api_source_of p) ''Failed_All_Stages_NoMatch'' v"
    using fast none
    by (simp add: final_record_def stage1_record_no_target stage2_record_no_terms)
  obtain s where s: "v = PyStr s"
    using assms(8) by (cases v) (simp_all add: isna_def)
  have "cleaned_verbatim_of (PyStr []) = []"
    by (simp add: cleaned_verbatim_of_def strip_def rstrip_semicolon_def)
  with assms(6) s have "s \<noteq> []"
    by auto
  then have raw: "s \<noteq> join '';'' (parse_semicolon_taxonomy v)"
    by (simp add: assms(9))
  have fields: "\<exists>rec s. out ! i = (df ! i, Some rec) \<and>
      dget rec ''scientificName'' = PyStr ''incertae sedis'' \<and>
      dget rec ''scientificNameID'' = PyStr ''urn:lsid:marinespecies.org:taxname:12'' \<and>
      dget rec ''match_type_debug'' = PyStr ''Failed_All_Stages_NoMatch'' \<and>
      dget rec ''cleanedTaxonomy'' = verbatimIdentification (df ! i) \<and>
      verbatimIdentification (df ! i) = PyStr s \<and>
      s \<noteq> join '';'' (parse_semicolon_taxonomy v)"
    using row final s raw assms(4) by (simp add: fields)
  from row final none fast stage1 fields show ?thesis
    by (simp add: match_key_def)
qed

text \<open>The theorem at row 4 of the small run, \<open>a;b\<close>, whose two tokens are too short.\<close>

theorem C10_empty_term_sequence_witness:
  "\<exists>out. get_worms_match_for_dataframe example_env example_params
        \<lparr>verbatimIdentification_dtype = object_dtype, rows = example_df\<rparr> = Inr out \<and>
     parse_semicolon_taxonomy (PyStr ''a;b'') = [] \<and>
     out ! 4 =
       (example_df ! 4,
        Some (incertae_sedis_record ''WoRMS'' ''Failed_All_Stages_NoMatch'' (PyStr ''a;b''))) \<and>
     (\<exists>rec. out ! 4 = (example_df ! 4, Some rec) \<and>
        dget rec ''scientificName'' = PyStr ''incertae sedis'' \<and>
        dget rec ''match_type_debug'' = PyStr ''Failed_All_Stages_NoMatch'' \<and>
        dget rec ''cleanedTaxonomy'' = PyStr ''a;b'') \<and>
     terms_to_scan example_params (PyStr ''a;b'', ''B18S'') = None"
proof -
  have fields:
    "dget (incertae_sedis_record api label cleaned) ''scientificName'' = PyStr ''incertae sedis''"
    "dget (incertae_sedis_record api label cleaned) ''scientificNameID''
       = PyStr ''urn:lsid:marinespecies.org:taxname:12''"
    "dget (incertae_sedis_record api label cleaned) ''match_type_debug'' = PyStr label"
    "dget (incertae_sedis_record api label cleaned) ''cleanedTaxonomy'' = cleaned"
    for api label cleaned
    by (simp_all add: incertae_sedis_record_def DWC_RANKS_STD_def dget_def)
  have "\<not> pool_fails_stage1 example_env"
    by (simp add: example_env_def)
  then obtain out where
    run: "get_worms_match_for_dataframe example_env example_params
        \<lparr>verbatimIdentification_dtype = object_dtype, rows = example_df\<rparr> = Inr out"
    using run_returns by blast
  have api: "api_source_of example_params = ''WoRMS''"
    by (simp add: api_source_of_def example_params_def)
  have len: "4 < length example_df"
    by (simp add: example_df_def)
  have mask: "\<not> empty_verbatim_mask (example_df ! 4)"
    by code_simp
  have row: "PyStr ''a;b'' = verbatimIdentification (example_df ! 4)"
    "''B18S'' = assay_name (example_df ! 4)"
    by (simp_all add: example_df_def)
  have cleaned: "cleaned_verbatim_of (PyStr ''a;b'') \<noteq> []"
    "lower (cleaned_verbatim_of (PyStr ''a;b'')) \<notin> set [''unassigned'', ''nan'', ''none'', '''']"
    by code_simp+
  have present: "\<not> isna (PyStr ''a;b'')"
    by (simp add: isna_def)
  have parsed: "parse_semicolon_taxonomy (PyStr ''a;b'') = []"
    by code_simp
  show ?thesis
    using C10_empty_term_sequence [OF run len mask row cleaned present parsed] run parsed api
    by (simp add: fields)
qed

subsection \<open>Depth truncation\<close>

lemma dget_update:
  "dget (AList.update k v d) k' = (if k' = k then v else dget d k')"
  by (simp add: dget_def update_conv')

lemma batch_match_record_fields:
  "dget (batch_match_record api entry t cleaned) ''cleanedTaxonomy'' = cleaned"
  "dget (batch_match_record api entry t cleaned) ''match_type_debug'' = PyStr (''Success_Batch_'' @ t)"
  "dget (batch_match_record api entry t cleaned) ''nameAccordingTo'' = PyStr api"
  by (simp_all add: batch_match_record_def dget_update)

lemma match_key_Some:
  assumes "match_key p lk k = Some r"
  obtains ts t entry where "terms_to_scan p k = Some ts"
    and "first_in_lookup lk (rev ts) = Some t" and "lk t = Some entry"
    and "r = batch_match_record (api_source_of p) entry t (cleaned_taxonomy_of ts (fst k))"
  using assms by (auto simp: match_key_def split: option.splits)

text \<open>The terms of a tuple after the species-skipping step of both Stage 2 and the final
  fallback.\<close>

lemma terms_to_scan_Some:
  assumes "terms_to_scan p (v, a) = Some ts"
  shows "ts = (if a \<in> set (assays_to_skip_species p) \<and>
                  max_depth_for_assay p a \<le> int (length (parse_semicolon_taxonomy v)) \<and>
                  parse_semicolon_taxonomy v \<noteq> []
               then butlast (parse_semicolon_taxonomy v) else parse_semicolon_taxonomy v)"
  using assms by (auto simp: terms_to_scan_def Let_def split: if_splits)

lemma final_cleaned_taxonomy:
  assumes "fast_path_record (api_source_of p) (v, a) = None"
    and "stage1_record e p (v, a) = None"
  shows "dget (final_record e p df (v, a)) ''cleanedTaxonomy'' =
           cleaned_taxonomy_of
             (if a \<in> set (assays_to_skip_species p) \<and>
                 max_depth_for_assay p a \<le> int (length (parse_semicolon_taxonomy v)) \<and>
                 parse_semicolon_taxonomy v \<noteq> []
              then butlast (parse_semicolon_taxonomy v) else parse_semicolon_taxonomy v) v"
proof (cases "stage2_record e p (stage1_unmatched e p (tuples_to_process p df)) (v, a)")
  case None
  with assms show ?thesis
    by (simp add: final_record_def no_match_record_def Let_def incertae_sedis_fields)
next
  case (Some r)
  then have "match_key p
      (build_batch_lookup e (all_terms_of e (stage1_unmatched e p (tuples_to_process p df))))
      (v, a) = Some r"
    by (simp add: stage2_record_def split: if_splits)
  then obtain ts t entry where ts: "terms_to_scan p (v, a) = Some ts"
    and r: "r = batch_match_record (api_source_of p) entry t (cleaned_taxonomy_of ts v)"
    by (auto elim!: match_key_Some)
  show ?thesis
    using assms Some terms_to_scan_Some [OF ts]
    by (simp add: final_record_def r batch_match_record_fields)
qed

lemma stage1_record_skip:
  "a \<in> set (assays_to_skip_species p) \<Longrightarrow> stage1_record e p (v, a) = None"
  by (simp add: stage1_record_no_target prematch_target_def)

text \<open>
  Claim C4, corrected. For every row that keeps the tuple of its verbatimIdentification
  and assay as key, whose key the fast path leaves to the stages and whose assay is in the
  skip-species set: when the normalized lineage has at least max_depth terms and at least
  two terms, the terms scanned in the batch matching are all but the last, and the
  cleanedTaxonomy of the row is the semicolon-join of those remaining terms; when the
  lineage has fewer than max_depth terms and at least one, all its terms are scanned and
  the cleanedTaxonomy is the semicolon-join of all of them; when the lineage has a single
  term and max_depth is at most one, nothing remains, the key is not scanned, and the row
  carries the \<open>Failed_All_Stages_NoMatch\<close> record whose cleanedTaxonomy is the raw
  verbatimIdentification.
\<close>

theorem C4_depth_truncation:
  assumes "get_worms_match_for_dataframe e p
             \<lparr>verbatimIdentification_dtype = d, rows = df\<rparr> = Inr out"
    and "i < length df"
    and "\<not> empty_verbatim_mask (df ! i)"
    and "v = verbatimIdentification (df ! i)" and "a = assay_name (df ! i)"
    and "fast_path_record (api_source_of p) (v, a) = None"
    and "a \<in> set (assays_to_skip_species p)"
    and "parsed = parse_semicolon_taxonomy v"
  shows
    "(max_depth_for_assay p a \<le> int (length parsed) \<and> 2 \<le> length parsed \<longrightarrow>
        terms_to_scan p (v, a) = Some (butlast parsed) \<and>
        (\<exists>rec. out ! i = (df ! i, Some rec) \<and>
           dget rec ''cleanedTaxonomy'' = PyStr (join '';'' (butlast parsed)))) \<and>
     (int (length parsed) < max_depth_for_assay p a \<and> parsed \<noteq> [] \<longrightarrow>
        terms_to_scan p (v, a) = Some parsed \<and>
        (\<exists>rec. out ! i = (df ! i, Some rec) \<and>
           dget rec ''cleanedTaxonomy'' = PyStr (join '';'' parsed))) \<and>
     (max_depth_for_assay p a \<le> int (length parsed) \<and> length parsed = 1 \<longrightarrow>
        terms_to_scan p (v, a) = None \<and>
        out ! i =
          (df ! i,
           Some (incertae_sedis_record (api_source_of p) ''Failed_All_Stages_NoMatch'' v)))"
proof -
  have row: "out ! i = (df ! i, Some (final_record e p df (v, a)))"
    using run_row_key [OF assms(1-3)] assms(4,5) by simp
  have st1: "stage1_record e p (v, a) = None"
    by (rule stage1_record_skip [OF assms(7)])
  note cleaned = final_cleaned_taxonomy [OF assms(6) st1, of df, folded assms(8)]
  have full: "terms_to_scan p (v, a) = Some (butlast parsed) \<and>
      (\<exists>rec. out ! i = (df ! i, Some rec) \<and>
         dget rec ''cleanedTaxonomy'' = PyStr (join '';'' (butlast parsed)))"
    if "max_depth_for_assay p a \<le> int (length parsed)" and "2 \<le> length parsed"
  proof -
    have "butlast parsed \<noteq> []" "parsed \<noteq> []"
      using that(2) by (cases parsed; cases "tl parsed"; auto)+
    then show ?thesis
      using that(1) assms(7) row cleaned
      by (simp add: terms_to_scan_def Let_def cleaned_taxonomy_of_def flip: assms(8))
  qed
  have short: "terms_to_scan p (v, a) = Some parsed \<and>
      (\<exists>rec. out ! i = (df ! i, Some rec) \<and>
         dget rec ''cleanedTaxonomy'' = PyStr (join '';'' parsed))"
    if "int (length parsed) < max_depth_for_assay p a" and "parsed \<noteq> []"
    using that assms(7) row cleaned
    by (simp add: terms_to_scan_def Let_def cleaned_taxonomy_of_def flip: assms(8))
  have single: "terms_to_scan p (v, a) = None \<and>
      out ! i =
        (df ! i, Some (incertae_sedis_record (api_source_of p) ''Failed_All_Stages_NoMatch'' v))"
    if "max_depth_for_assay p a \<le> int (length parsed)" and "length parsed = 1"
  proof -
    have empty: "butlast parsed = []" "parsed \<noteq> []"
      using that(2) by (cases parsed; auto)+
    have scan: "terms_to_scan p (v, a) = None"
      using that(1) assms(7) empty
      by (simp add: terms_to_scan_def Let_def flip: assms(8))
    have "final_record e p df (v, a) =
            incertae_sedis_record (api_source_of p) ''Failed_All_Stages_NoMatch'' v"
      using assms(6,7) st1 that(1) empty
      by (simp add: final_record_def stage2_record_no_terms [OF scan] no_match_record_def
            Let_def cleaned_taxonomy_of_def flip: assms(8))
    with row scan show ?thesis by simp
  qed
  from full short single show ?thesis
    by blast
qed

text \<open>The theorem at rows 0 and 9 of the small run, where the assay \<open>A16S\<close> skips species
  and has max_depth 3: a lineage of three terms and a lineage of two.\<close>

theorem C4_depth_truncation_witness:
  "\<exists>out rec0 rec9.
     get_worms_match_for_dataframe example_env example_params
        \<lparr>verbatimIdentification_dtype = object_dtype, rows = example_df\<rparr> = Inr out \<and>
     parse_semicolon_taxonomy (PyStr ''Bacteria;Proteobacteria;Vibrio'')
       = [''Bacteria'', ''Proteobacteria'', ''Vibrio''] \<and>
     terms_to_scan example_params (PyStr ''Bacteria;Proteobacteria;Vibrio'', ''A16S'')
       = Some [''Bacteria'', ''Proteobacteria''] \<and>
     out ! 0 = (example_df ! 0, Some rec0) \<and>
     dget rec0 ''cleanedTaxonomy'' = PyStr ''Bacteria;Proteobacteria'' \<and>
     terms_to_scan example_params (PyStr ''Bacteria;Proteobacteria'', ''A16S'')
       = Some [''Bacteria'', ''Proteobacteria''] \<and>
     out ! 9 = (example_df ! 9, Some rec9) \<and>
     dget rec9 ''cleanedTaxonomy'' = PyStr ''Bacteria;Proteobacteria''"
proof -
  have "\<not> pool_fails_stage1 example_env"
    by (simp add: example_env_def)
  then obtain out where
    run: "get_worms_match_for_dataframe example_env example_params
        \<lparr>verbatimIdentification_dtype = object_dtype, rows = example_df\<rparr> = Inr out"
    using run_returns by blast
  have len: "0 < length example_df" "9 < length example_df"
    by (simp_all add: example_df_def)
  have mask: "\<not> empty_verbatim_mask (example_df ! 0)" "\<not> empty_verbatim_mask (example_df ! 9)"
    by code_simp+
  have rows: "PyStr ''Bacteria;Proteobacteria;Vibrio'' = verbatimIdentification (example_df ! 0)"
    "''A16S'' = assay_name (example_df ! 0)"
    "PyStr ''Bacteria;Proteobacteria'' = verbatimIdentification (example_df ! 9)"
    "''A16S'' = assay_name (example_df ! 9)"
    by (simp_all add: example_df_def)
  have fast:
    "fast_path_record (api_source_of example_params)
       (PyStr ''Bacteria;Proteobacteria;Vibrio'', ''A16S'') = None"
    "fast_path_record (api_source_of example_params)
       (PyStr ''Bacteria;Proteobacteria'', ''A16S'') = None"
    by code_simp+
  have skip: "''A16S'' \<in> set (assays_to_skip_species example_params)"
    by (simp add: assays_to_skip_species_def example_params_def)
  have depth: "max_depth_for_assay example_params ''A16S'' = 3"
    by (simp add: max_depth_for_assay_def example_params_def)
  have parsed3: "[''Bacteria'', ''Proteobacteria'', ''Vibrio'']
      = parse_semicolon_taxonomy (PyStr ''Bacteria;Proteobacteria;Vibrio'')"
    by code_simp
  have parsed2: "[''Bacteria'', ''Proteobacteria'']
      = parse_semicolon_taxonomy (PyStr ''Bacteria;Proteobacteria'')"
    by code_simp
  show ?thesis
    using C4_depth_truncation [OF run len(1) mask(1) rows(1,2) fast(1) skip parsed3]
      C4_depth_truncation [OF run len(2) mask(2) rows(3,4) fast(2) skip parsed2]
      run depth parsed3 [symmetric]
    by auto
qed

text \<open>
  Claim C4 as stated fails when nothing remains after the drop: for an assay that skips
  species and has max_depth 1, the lineage \<open>Bacteria\<close> has one term, which is dropped, and
  the cleanedTaxonomy of the row is the raw string \<open>Bacteria\<close>, not the join of the
  remaining terms, which is the empty string.
\<close>

theorem C4_single_term_keeps_raw_string:
  "''A16S'' \<in> set (assays_to_skip_species shallow_params) \<and>
   max_depth_for_assay shallow_params ''A16S''
     \<le> int (length (parse_semicolon_taxonomy (PyStr ''Bacteria''))) \<and>
   get_worms_match_for_dataframe example_env shallow_params
        \<lparr>verbatimIdentification_dtype = object_dtype, rows = shallow_df\<rparr> =
     Inr [(\<lparr> verbatimIdentification = PyStr ''Bacteria'', assay_name = ''A16S'' \<rparr>,
           Some (incertae_sedis_record ''WoRMS'' ''Failed_All_Stages_NoMatch''
                   (PyStr ''Bacteria'')))] \<and>
   PyStr (join '';'' (butlast (parse_semicolon_taxonomy (PyStr ''Bacteria'')))) = PyStr '''' \<and>
   dget (incertae_sedis_record ''WoRMS'' ''Failed_All_Stages_NoMatch'' (PyStr ''Bacteria''))
     ''cleanedTaxonomy'' = PyStr ''Bacteria''"
  by code_simp

subsection \<open>The scan of the lookup table\<close>






subsection \<open>Deferral and fallthrough in Stage 1\<close>

lemma worker_failure:
  assumes "case aphiaRecordByAphiaID e i of
             Inl ex \<Rightarrow> True
           | Inr None \<Rightarrow> True
           | Inr (Some record) \<Rightarrow> dget record ''status'' \<noteq> PyStr ''accepted''"
  shows "\<not> has_key (snd (get_worms_classification_by_id_worker e i api)) ''scientificName''"
  using assms
  by (auto simp: get_worms_classification_by_id_worker_def Let_def has_key_def
        split: sum.splits option.splits)

text \<open>
  Claim C9. When the pool of Stage 1 works, the stage returns, and for every key among
  the tuples it processes: if the assay of the key is in the skip-species set, the local
  dictionary is not consulted for the key, the key is among the unmatched tuples handed to
  the Batch Matcher, and the stage caches nothing for it; if the most specific term of the
  key is in the local dictionary and the fetch of its identifier raises, returns no record,
  or returns a record whose status is not \<open>accepted\<close>, the key is among the unmatched tuples
  handed to the Batch Matcher, and the stage caches nothing for it.
\<close>

theorem C9_prematch_deferral_and_fallthrough:
  assumes "\<not> pool_fails_stage1 e" and "(v, a) \<in> set todo"
  shows
    "\<exists>c1 unmatched_tuples.
       stage1 e p c todo = Inr (c1, unmatched_tuples) \<and>
       (a \<in> set (assays_to_skip_species p) \<longrightarrow>
          (v, a) \<notin> fst ` set (stage1_lookups p todo) \<and>
          (v, a) \<in> set unmatched_tuples \<and>
          c1 (Key (v, a)) = c (Key (v, a))) \<and>
       (\<forall>aphia_id.
          a \<notin> set (assays_to_skip_species p) \<and>
          parse_semicolon_taxonomy v \<noteq> [] \<and>
          map_of (pr2_worms_dict p) (last (parse_semicolon_taxonomy v)) = Some aphia_id \<and>
          (case aphiaRecordByAphiaID e aphia_id of
             Inl ex \<Rightarrow> True
           | Inr None \<Rightarrow> True
           | Inr (Some record) \<Rightarrow> dget record ''status'' \<noteq> PyStr ''accepted'') \<longrightarrow>
          (v, a) \<in> set unmatched_tuples \<and>
          c1 (Key (v, a)) = c (Key (v, a)))"
proof -
  obtain c1 um1 where st1: "stage1 e p c todo = Inr (c1, um1)"
    using stage1_returns [OF assms(1), of p c todo] by (metis surj_pair)
  have through: "(v, a) \<in> set um1 \<and> c1 (Key (v, a)) = c (Key (v, a))"
    if "stage1_record e p (v, a) = None"
    using that stage1_unmatched_set [OF st1] stage1_cache [OF st1, of "(v, a)"] assms(2)
    by simp
  have skip: "(v, a) \<notin> fst ` set (stage1_lookups p todo) \<and>
      (v, a) \<in> set um1 \<and> c1 (Key (v, a)) = c (Key (v, a))"
    if "a \<in> set (assays_to_skip_species p)"
    using through [OF stage1_record_skip [OF that]] that
    by (simp add: stage1_lookups_keys consults_dictionary_def)
  have failed: "(v, a) \<in> set um1 \<and> c1 (Key (v, a)) = c (Key (v, a))"
    if "a \<notin> set (assays_to_skip_species p)"
      and "parse_semicolon_taxonomy v \<noteq> []"
      and "map_of (pr2_worms_dict p) (last (parse_semicolon_taxonomy v)) = Some aphia_id"
      and "case aphiaRecordByAphiaID e aphia_id of
             Inl ex \<Rightarrow> True
           | Inr None \<Rightarrow> True
           | Inr (Some record) \<Rightarrow> dget record ''status'' \<noteq> PyStr ''accepted''"
    for aphia_id
  proof -
    have "prematch_target p (v, a) = Some aphia_id"
      using that(1-3) by (simp add: prematch_target_def)
    then have "stage1_record e p (v, a) = None"
      using worker_failure [OF that(4), of "api_source_of p"]
      by (simp add: stage1_record_def)
    then show ?thesis by (rule through)
  qed
  from st1 skip failed show ?thesis
    by blast
qed

text \<open>The theorem on three keys of the small run: an assay that skips species, an
  identifier (8) whose record is not accepted, and an identifier (9) whose fetch raises.
  The first and the last term of each lineage are in the local dictionary or not as the
  small run sets them.\<close>

theorem C9_prematch_deferral_and_fallthrough_witness:
  "\<exists>c1 unmatched_tuples.
     stage1 example_env example_params Map.empty
       [(PyStr ''Bacteria;Proteobacteria'', ''A16S''),
        (PyStr ''Eukaryota;Metazoa;Oldname'', ''B18S''),
        (PyStr ''Eukaryota;Metazoa;Ghost'', ''B18S'')] = Inr (c1, unmatched_tuples) \<and>
     (PyStr ''Bacteria;Proteobacteria'', ''A16S'') \<in> set unmatched_tuples \<and>
     (PyStr ''Eukaryota;Metazoa;Oldname'', ''B18S'') \<in> set unmatched_tuples \<and>
     (PyStr ''Eukaryota;Metazoa;Ghost'', ''B18S'') \<in> set unmatched_tuples \<and>
     c1 (Key (PyStr ''Bacteria;Proteobacteria'', ''A16S'')) = None \<and>
     c1 (Key (PyStr ''Eukaryota;Metazoa;Oldname'', ''B18S'')) = None \<and>
     c1 (Key (PyStr ''Eukaryota;Metazoa;Ghost'', ''B18S'')) = None"
proof -
  let ?todo = "[(PyStr ''Bacteria;Proteobacteria'', ''A16S''),
                (PyStr ''Eukaryota;Metazoa;Oldname'', ''B18S''),
                (PyStr ''Eukaryota;Metazoa;Ghost'', ''B18S'')]"
  have pool: "\<not> pool_fails_stage1 example_env"
    by (simp add: example_env_def)
  have skip: "''A16S'' \<in> set (assays_to_skip_species example_params)"
    "''B18S'' \<notin> set (assays_to_skip_species example_params)"
    by (simp_all add: assays_to_skip_species_def example_params_def)
  have old: "parse_semicolon_taxonomy (PyStr ''Eukaryota;Metazoa;Oldname'') \<noteq> []"
    "map_of (pr2_worms_dict example_params)
       (last (parse_semicolon_taxonomy (PyStr ''Eukaryota;Metazoa;Oldname''))) = Some 8"
    "case aphiaRecordByAphiaID example_env 8 of
       Inl ex \<Rightarrow> True
     | Inr None \<Rightarrow> True
     | Inr (Some record) \<Rightarrow> dget record ''status'' \<noteq> PyStr ''accepted''"
    by code_simp+
  have ghost: "parse_semicolon_taxonomy (PyStr ''Eukaryota;Metazoa;Ghost'') \<noteq> []"
    "map_of (pr2_worms_dict example_params)
       (last (parse_semicolon_taxonomy (PyStr ''Eukaryota;Metazoa;Ghost''))) = Some 9"
    "case aphiaRecordByAphiaID example_env 9 of
       Inl ex \<Rightarrow> True
     | Inr None \<Rightarrow> True
     | Inr (Some record) \<Rightarrow> dget record ''status'' \<noteq> PyStr ''accepted''"
    by code_simp+
  have k1: "(PyStr ''Bacteria;Proteobacteria'', ''A16S'') \<in> set ?todo"
    and k2: "(PyStr ''Eukaryota;Metazoa;Oldname'', ''B18S'') \<in> set ?todo"
    and k3: "(PyStr ''Eukaryota;Metazoa;Ghost'', ''B18S'') \<in> set ?todo"
    by simp_all
  obtain c1 um1 where st1: "stage1 example_env example_params Map.empty ?todo = Inr (c1, um1)"
    using stage1_returns [OF pool, of example_params Map.empty ?todo] by (metis surj_pair)
  show ?thesis
    using C9_prematch_deferral_and_fallthrough [OF pool k1, of example_params Map.empty]
      C9_prematch_deferral_and_fallthrough [OF pool k2, of example_params Map.empty]
      C9_prematch_deferral_and_fallthrough [OF pool k3, of example_params Map.empty]
      st1 skip old ghost
    by auto
qed

subsection \<open>The lookup table, batch by batch\<close>

lemma process_matches_other:
  "t \<notin> set chunk \<Longrightarrow> fst (process_matches chunk j raw acc) t = acc t"
proof (induction raw arbitrary: j acc)
  case Nil
  then show ?case by simp
next
  case (Cons name_list rest)
  then show ?case
    by (auto split: option.splits)
qed

lemma process_matches_acc:
  "process_matches chunk j raw acc =
     (acc ++ fst (process_matches chunk j raw Map.empty),
      snd (process_matches chunk j raw Map.empty))"
proof (induction raw arbitrary: j acc)
  case Nil
  then show ?case by simp
next
  case (Cons name_list rest)
  show ?case
  proof (cases "first_accepted name_list")
    case None
    then show ?thesis
      using Cons.IH [of "Suc j" acc] by simp
  next
    case (Some match)
    show ?thesis
    proof (cases "j < length chunk")
      case True
      let ?k = "chunk ! j" and ?v = "batch_res match"
      let ?X = "fst (process_matches chunk (Suc j) rest Map.empty)"
      let ?Y = "snd (process_matches chunk (Suc j) rest Map.empty)"
      have e1: "process_matches chunk (Suc j) rest (acc(?k \<mapsto> ?v)) = (acc(?k \<mapsto> ?v) ++ ?X, ?Y)"
        by (rule Cons.IH)
      have e2: "process_matches chunk (Suc j) rest [?k \<mapsto> ?v] = ([?k \<mapsto> ?v] ++ ?X, ?Y)"
        by (rule Cons.IH)
      have e3: "acc(?k \<mapsto> ?v) ++ ?X = acc ++ ([?k \<mapsto> ?v] ++ ?X)"
        by (rule ext) (simp add: map_add_def split: option.splits)
      have "process_matches chunk j (name_list # rest) acc = (acc(?k \<mapsto> ?v) ++ ?X, ?Y)"
        using Some True e1 by simp
      moreover have "process_matches chunk j (name_list # rest) Map.empty = ([?k \<mapsto> ?v] ++ ?X, ?Y)"
        using Some True e2 by simp
      ultimately show ?thesis
        by (simp only: e3 fst_conv snd_conv)
    next
      case False
      with Some show ?thesis by simp
    qed
  qed
qed

lemma worker_other:
  assumes "t \<notin> set chunk"
  shows "snd (get_worms_batch_worker e (n, chunk)) t = None"
proof (cases "aphiaRecordsByMatchNames e chunk")
  case (Inl ex)
  then show ?thesis by (simp add: get_worms_batch_worker_def)
next
  case (Inr raw)
  obtain res ex where pm: "process_matches chunk 0 raw Map.empty = (res, ex)"
    by (cases "process_matches chunk 0 raw Map.empty") auto
  have "res t = None"
    using process_matches_other [OF assms, of 0 raw Map.empty] pm by simp
  with Inr pm show ?thesis
    by (cases ex) (simp_all add: get_worms_batch_worker_def)
qed

lemma sequential_batch_acc:
  "sequential_batch e chunk m = m ++ sequential_batch e chunk Map.empty"
  using process_matches_acc [of chunk 0 _ m]
  by (simp add: sequential_batch_def split: sum.splits)

lemma sequential_other:
  "t \<notin> set chunk \<Longrightarrow> sequential_batch e chunk Map.empty t = None"
  by (simp add: sequential_batch_def process_matches_other split: sum.splits)

lemma fold_map_add_at:
  assumes "\<forall>b' \<in> set bs. b' \<noteq> b \<longrightarrow> g b' t = None"
  shows "fold (\<lambda>r lk. lk ++ g r) bs m t =
           (if b \<in> set bs \<and> g b t \<noteq> None then g b t else m t)"
  using assms
proof (induction bs arbitrary: m)
  case Nil
  then show ?case by simp
next
  case (Cons x bs)
  then show ?case
    by (cases "x = b") (auto simp: map_add_def split: option.splits)
qed

lemma in_chunk_index:
  assumes "t \<in> set (take n (drop (q * n) xs))"
  obtains i where "q * n \<le> i" and "i < q * n + n" and "i < length xs" and "xs ! i = t"
proof -
  from assms obtain j where j: "j < length (take n (drop (q * n) xs))"
    and t: "take n (drop (q * n) xs) ! j = t"
    by (auto simp: in_set_conv_nth)
  then have "j < n" and "q * n + j < length xs"
    by auto
  moreover have "xs ! (q * n + j) = t"
    using t j by auto
  ultimately show ?thesis
    using that [of "q * n + j"] by simp
qed

lemma batches_disjoint:
  assumes "distinct terms"
    and "b \<in> set (batch_data_of terms)" and "b' \<in> set (batch_data_of terms)"
    and "t \<in> set (snd b)" and "t \<in> set (snd b')"
  shows "b = b'"
proof -
  from assms(2) obtain q where b: "b = (q * chunk_size div chunk_size + 1,
      take chunk_size (drop (q * chunk_size) terms))"
    by (auto simp: batch_data_of_def)
  from assms(3) obtain q' where b': "b' = (q' * chunk_size div chunk_size + 1,
      take chunk_size (drop (q' * chunk_size) terms))"
    by (auto simp: batch_data_of_def)
  from assms(4) b obtain i where i: "q * chunk_size \<le> i" "i < q * chunk_size + chunk_size"
    "i < length terms" "terms ! i = t"
    by (auto elim: in_chunk_index)
  from assms(5) b' obtain i' where i': "q' * chunk_size \<le> i'" "i' < q' * chunk_size + chunk_size"
    "i' < length terms" "terms ! i' = t"
    by (auto elim: in_chunk_index)
  have "i = i'"
    using assms(1) i(3,4) i'(3,4) by (metis nth_eq_iff_index_eq)
  have pos: "0 < chunk_size"
    by (simp add: chunk_size_def)
  have "i div chunk_size = q" "i' div chunk_size = q'"
    using i(1,2) i'(1,2) pos by (auto intro!: div_nat_eqI simp: mult.commute)
  with \<open>i = i'\<close> have "q = q'" by simp
  with b b' show ?thesis by simp
qed

lemma build_batch_lookup_at:
  assumes "distinct terms" and "(n, chunk) \<in> set (batch_data_of terms)" and "t \<in> set chunk"
  shows "build_batch_lookup e terms t =
           (if \<not> pool_fails_stage2 e then snd (get_worms_batch_worker e (n, chunk)) t
            else sequential_batch e chunk Map.empty t)"
proof (cases "pool_fails_stage2 e")
  case False
  let ?g = "\<lambda>b. snd (get_worms_batch_worker e b)"
  have others: "\<forall>b' \<in> set (batch_data_of terms). b' \<noteq> (n, chunk) \<longrightarrow> ?g b' t = None"
  proof (intro ballI impI)
    fix b' assume b': "b' \<in> set (batch_data_of terms)" "b' \<noteq> (n, chunk)"
    then have "t \<notin> set (snd b')"
      using batches_disjoint [OF assms(1) assms(2) b'(1), of t] assms(3) by auto
    then show "?g b' t = None"
      using worker_other [of t "snd b'" e "fst b'"] by simp
  qed
  have "build_batch_lookup e terms t =
          fold (\<lambda>r lk. lk ++ ?g r) (batch_data_of terms) Map.empty t"
    using False by (simp add: build_batch_lookup_def Let_def fold_map comp_def)
  also have "\<dots> = ?g (n, chunk) t"
    using fold_map_add_at [where g = ?g and b = "(n, chunk)", OF others, of Map.empty] assms(2)
    by auto
  finally show ?thesis using False by simp
next
  case True
  let ?g = "\<lambda>b. sequential_batch e (snd b) Map.empty"
  have others: "\<forall>b' \<in> set (batch_data_of terms). b' \<noteq> (n, chunk) \<longrightarrow> ?g b' t = None"
  proof (intro ballI impI)
    fix b' assume b': "b' \<in> set (batch_data_of terms)" "b' \<noteq> (n, chunk)"
    then have "t \<notin> set (snd b')"
      using batches_disjoint [OF assms(1) assms(2) b'(1), of t] assms(3) by auto
    then show "?g b' t = None"
      by (rule sequential_other)
  qed
  have step: "(\<lambda>b lk. sequential_batch e (snd b) lk) = (\<lambda>b lk. lk ++ ?g b)"
    by (intro ext) (rule fun_cong [OF sequential_batch_acc])
  have "build_batch_lookup e terms t =
          fold (\<lambda>b lk. lk ++ ?g b) (batch_data_of terms) Map.empty t"
    using True by (simp add: build_batch_lookup_def Let_def step)
  also have "\<dots> = ?g (n, chunk) t"
    using fold_map_add_at [where g = ?g and b = "(n, chunk)", OF others, of Map.empty] assms(2)
    by auto
  finally show ?thesis using True by simp
qed

lemma worker_raises:
  "aphiaRecordsByMatchNames e chunk = Inl ex \<Longrightarrow>
   snd (get_worms_batch_worker e (n, chunk)) = Map.empty"
  by (simp add: get_worms_batch_worker_def)

lemma sequential_raises:
  "aphiaRecordsByMatchNames e chunk = Inl ex \<Longrightarrow> sequential_batch e chunk lk = lk"
  by (simp add: sequential_batch_def)

text \<open>
  Claim C6. Let the terms to match be distinct, as the elements of a set are, and take
  any batch of them and any term of that batch. In the parallel path the entry of the term
  in the lookup table is the one that the worker of that batch returns, and in the
  sequential fallback it is the one that the processing of that batch alone writes: no
  other batch adds, changes or removes it, whether the other batches raise or not. When
  the remote call of the batch raises, the worker returns the empty table, the sequential
  processing leaves the table as it is, and the lookup table has no entry for any term of
  the batch, in both paths. No exception of a batch leaves the run: building the table is
  a total function, the run never ends with the exception of a remote call or with the
  \<open>IndexError\<close> of a batch, and for every table whose column \<open>verbatimIdentification\<close> is of
  dtype \<open>object\<close> the run returns whenever the pool of Stage 1 works.
\<close>

theorem C6_batch_failure_isolation:
  assumes "distinct all_terms_to_match"
    and "(batch_num, chunk) \<in> set (batch_data_of all_terms_to_match)"
    and "t \<in> set chunk"
  shows
    "(\<not> pool_fails_stage2 e \<longrightarrow>
        build_batch_lookup e all_terms_to_match t =
          snd (get_worms_batch_worker e (batch_num, chunk)) t) \<and>
     (pool_fails_stage2 e \<longrightarrow>
        build_batch_lookup e all_terms_to_match t = sequential_batch e chunk Map.empty t) \<and>
     (\<forall>ex. aphiaRecordsByMatchNames e chunk = Inl ex \<longrightarrow>
        snd (get_worms_batch_worker e (batch_num, chunk)) = Map.empty \<and>
        (\<forall>batch_lookup. sequential_batch e chunk batch_lookup = batch_lookup) \<and>
        build_batch_lookup e all_terms_to_match t = None) \<and>
     get_worms_match_for_dataframe e p occurrence_df \<notin> {Inl ServiceError, Inl IndexError} \<and>
     (\<not> pool_fails_stage1 e \<and> verbatimIdentification_dtype occurrence_df = object_dtype \<longrightarrow>
        (\<exists>out. get_worms_match_for_dataframe e p occurrence_df = Inr out))"
proof -
  note at = build_batch_lookup_at [OF assms, of e]
  have raised: "snd (get_worms_batch_worker e (batch_num, chunk)) = Map.empty \<and>
      (\<forall>batch_lookup. sequential_batch e chunk batch_lookup = batch_lookup) \<and>
      build_batch_lookup e all_terms_to_match t = None"
    if "aphiaRecordsByMatchNames e chunk = Inl ex" for ex
    using at worker_raises [OF that] sequential_raises [OF that] by simp
  have no_batch_exception:
    "get_worms_match_for_dataframe e p occurrence_df \<notin> {Inl ServiceError, Inl IndexError}"
    using run_raises [of e p occurrence_df] by auto
  have returns: "\<exists>out. get_worms_match_for_dataframe e p occurrence_df = Inr out"
    if "\<not> pool_fails_stage1 e" "verbatimIdentification_dtype occurrence_df = object_dtype"
    using run_raises [of e p occurrence_df] that
    by (cases "get_worms_match_for_dataframe e p occurrence_df") auto
  show ?thesis
    using at raised no_batch_exception returns by simp
qed

text \<open>The theorem on fifty-six terms: the first batch, of fifty terms, holds \<open>Aa\<close> and
  raises; the second batch, of six terms, holds \<open>Gh\<close>. With a working pool and with a
  failing pool, the table has no entry for \<open>Aa\<close> and has the entry of \<open>Gh\<close>, and the run on
  the small dataset returns although every fetch of an identifier raises.\<close>

theorem C6_batch_failure_isolation_witness:
  "build_batch_lookup failing_batch_env many_terms ''Aa'' = None \<and>
   build_batch_lookup failing_batch_env many_terms ''Gh''
     = Some (batch_res (example_record ''accepted'' ''Gh'')) \<and>
   build_batch_lookup failing_pool_env many_terms ''Aa'' = None \<and>
   build_batch_lookup failing_pool_env many_terms ''Gh''
     = Some (batch_res (example_record ''accepted'' ''Gh'')) \<and>
   (\<exists>out. get_worms_match_for_dataframe failing_pool_env example_params
            \<lparr>verbatimIdentification_dtype = object_dtype, rows = example_df\<rparr> = Inr out)"
proof -
  let ?first = "take 50 many_terms" and ?second = "drop 50 many_terms"
  have dist: "distinct many_terms"
    by code_simp
  have batches: "batch_data_of many_terms = [(1, ?first), (2, ?second)]"
    by code_simp
  have b1: "(1, ?first) \<in> set (batch_data_of many_terms)"
    and b2: "(2, ?second) \<in> set (batch_data_of many_terms)"
    by (simp_all add: batches)
  have t1: "''Aa'' \<in> set ?first" and t2: "''Gh'' \<in> set ?second"
    by code_simp+
  have pools: "\<not> pool_fails_stage2 failing_batch_env" "pool_fails_stage2 failing_pool_env"
    by (simp_all add: failing_batch_env_def failing_pool_env_def)
  have raises: "aphiaRecordsByMatchNames failing_batch_env ?first = Inl ServiceError"
    "aphiaRecordsByMatchNames failing_pool_env ?first = Inl ServiceError"
    by code_simp+
  have works: "snd (get_worms_batch_worker failing_batch_env (2, ?second)) ''Gh''
      = Some (batch_res (example_record ''accepted'' ''Gh''))"
    "sequential_batch failing_pool_env ?second Map.empty ''Gh''
      = Some (batch_res (example_record ''accepted'' ''Gh''))"
    by code_simp+
  have stage1_pool: "\<not> pool_fails_stage1 failing_batch_env"
    "\<not> pool_fails_stage1 failing_pool_env"
    by (simp_all add: failing_batch_env_def failing_pool_env_def)
  let ?df = "\<lparr>verbatimIdentification_dtype = object_dtype, rows = example_df\<rparr>"
  show ?thesis
    using C6_batch_failure_isolation [OF dist b1 t1, of failing_batch_env example_params ?df]
      C6_batch_failure_isolation [OF dist b2 t2, of failing_batch_env example_params ?df]
      C6_batch_failure_isolation [OF dist b1 t1, of failing_pool_env example_params ?df]
      C6_batch_failure_isolation [OF dist b2 t2, of failing_pool_env example_params ?df]
      pools raises works stage1_pool
    by simp
qed

subsection \<open>Totality of the assembly\<close>

lemma has_key_update:
  "has_key (AList.update k v d) k' = (k' = k \<or> has_key d k')"
  by (auto simp: has_key_def update_conv')

lemma has_key_Cons:
  "has_key ((k, v) # d) k' = (k' = k \<or> has_key d k')"
  by (auto simp: has_key_def)

lemma dget_Cons:
  "dget ((k, v) # d) k' = (if k' = k then v else dget d k')"
  by (simp add: dget_def)

lemma has_key_rank_fields:
  "has_key (rank_fields record d) k = (k \<in> set DWC_RANKS_STD \<or> has_key d k)"
  by (auto simp: rank_fields_def DWC_RANKS_STD_def has_key_update)

lemma dget_rank_fields_name:
  "dget (rank_fields record d) ''scientificName'' = dget d ''scientificName''"
  by (simp add: rank_fields_def DWC_RANKS_STD_def dget_update)

lemma complete_recordI:
  "has_key d ''scientificName'' \<Longrightarrow> (\<And>k. k \<in> set DWC_RANKS_STD \<Longrightarrow> has_key d k) \<Longrightarrow>
   complete_record d"
  by (simp add: complete_record_def list_all_iff)

lemma complete_incertae_sedis:
  "complete_record (incertae_sedis_record api label cleaned)"
  by (simp add: complete_record_def incertae_sedis_record_def DWC_RANKS_STD_def has_key_def)

lemma named_incertae_sedis:
  "named_record (incertae_sedis_record api label cleaned)"
  by (simp add: named_record_def incertae_sedis_fields)

lemma complete_update:
  "complete_record d \<Longrightarrow> complete_record (AList.update k v d)"
  by (simp add: complete_record_def list_all_iff has_key_update)

lemma named_update:
  "named_record d \<Longrightarrow> k \<noteq> ''scientificName'' \<Longrightarrow> named_record (AList.update k v d)"
  by (simp add: named_record_def dget_update)

lemma complete_batch_res:
  "complete_record (batch_res match)"
  by (rule complete_recordI) (simp_all add: batch_res_def has_key_rank_fields has_key_Cons)

lemma named_batch_res:
  "dget match ''scientificname'' = PyStr s \<Longrightarrow> named_record (batch_res match)"
  by (simp add: named_record_def batch_res_def dget_rank_fields_name dget_Cons)

lemma complete_batch_match_record:
  "complete_record entry \<Longrightarrow> complete_record (batch_match_record api entry t cleaned)"
  by (simp add: batch_match_record_def complete_update)

lemma named_batch_match_record:
  "named_record entry \<Longrightarrow> named_record (batch_match_record api entry t cleaned)"
  by (simp add: batch_match_record_def named_update)

lemma first_accepted_Some:
  "first_accepted name_list = Some match \<Longrightarrow>
   Some match \<in> set name_list \<and> dget match ''status'' = PyStr ''accepted''"
  by (induction name_list rule: first_accepted.induct) (auto split: if_splits)

text \<open>A property of the records built from the accepted candidates holds of every entry
  of the lookup table.\<close>

lemma process_matches_invariant:
  assumes "\<And>t d. acc t = Some d \<Longrightarrow> P d"
    and "\<And>name_list match. name_list \<in> set raw \<Longrightarrow> first_accepted name_list = Some match \<Longrightarrow>
           P (batch_res match)"
    and "fst (process_matches chunk j raw acc) t = Some d"
  shows "P d"
  using assms
proof (induction raw arbitrary: j acc)
  case Nil
  then show ?case by simp
next
  case (Cons name_list rest)
  have rest: "P (batch_res m)" if "nl \<in> set rest" and "first_accepted nl = Some m" for nl m
    using Cons.prems(2) [of nl m] that by simp
  show ?case
  proof (cases "first_accepted name_list")
    case None
    with Cons.prems(3) have step: "fst (process_matches chunk (Suc j) rest acc) t = Some d"
      by simp
    show ?thesis
      by (rule Cons.IH [OF Cons.prems(1) rest step])
  next
    case (Some match)
    have here: "P (batch_res match)"
      using Cons.prems(2) [of name_list match] Some by simp
    show ?thesis
    proof (cases "j < length chunk")
      case True
      have acc': "P d'" if "(acc(chunk ! j \<mapsto> batch_res match)) t' = Some d'" for t' d'
        using that here Cons.prems(1) [of t' d'] by (auto split: if_splits)
      have step: "fst (process_matches chunk (Suc j) rest (acc(chunk ! j \<mapsto> batch_res match))) t
          = Some d"
        using Cons.prems(3) Some True by simp
      show ?thesis
        by (rule Cons.IH [OF acc' rest step])
    next
      case False
      with Some Cons.prems(3) have "acc t = Some d" by simp
      then show ?thesis by (rule Cons.prems(1))
    qed
  qed
qed

lemma worker_invariant:
  assumes "\<And>raw name_list match. aphiaRecordsByMatchNames e chunk = Inr raw \<Longrightarrow>
             name_list \<in> set raw \<Longrightarrow> first_accepted name_list = Some match \<Longrightarrow>
             P (batch_res match)"
    and "snd (get_worms_batch_worker e (n, chunk)) t = Some d"
  shows "P d"
proof (cases "aphiaRecordsByMatchNames e chunk")
  case (Inl ex)
  with assms(2) show ?thesis by (simp add: get_worms_batch_worker_def)
next
  case (Inr raw)
  obtain res ex where pm: "process_matches chunk 0 raw Map.empty = (res, ex)"
    by (cases "process_matches chunk 0 raw Map.empty") auto
  have "res t = Some d"
    using assms(2) Inr pm by (cases ex) (simp_all add: get_worms_batch_worker_def)
  then have "fst (process_matches chunk 0 raw Map.empty) t = Some d"
    using pm by simp
  then show ?thesis
    using process_matches_invariant [of Map.empty P raw chunk 0 t d] assms(1) [OF Inr]
    by auto
qed

lemma sequential_invariant:
  assumes "\<And>t d. lk t = Some d \<Longrightarrow> P d"
    and "\<And>raw name_list match. aphiaRecordsByMatchNames e chunk = Inr raw \<Longrightarrow>
             name_list \<in> set raw \<Longrightarrow> first_accepted name_list = Some match \<Longrightarrow>
             P (batch_res match)"
    and "sequential_batch e chunk lk t = Some d"
  shows "P d"
proof (cases "aphiaRecordsByMatchNames e chunk")
  case (Inl ex)
  with assms(1,3) show ?thesis by (simp add: sequential_batch_def)
next
  case (Inr raw)
  then have "fst (process_matches chunk 0 raw lk) t = Some d"
    using assms(3) by (simp add: sequential_batch_def)
  then show ?thesis
    using process_matches_invariant [of lk P raw chunk 0 t d] assms(1) assms(2) [OF Inr]
    by auto
qed

lemma build_batch_lookup_invariant:
  assumes "\<And>chunk raw name_list match. aphiaRecordsByMatchNames e chunk = Inr raw \<Longrightarrow>
             name_list \<in> set raw \<Longrightarrow> first_accepted name_list = Some match \<Longrightarrow>
             P (batch_res match)"
    and "build_batch_lookup e terms t = Some d"
  shows "P d"
proof -
  have par: "fold (\<lambda>r lk. lk ++ snd r) (map (get_worms_batch_worker e) bs) m t = Some d \<Longrightarrow>
      (\<And>t d. m t = Some d \<Longrightarrow> P d) \<Longrightarrow> P d" for bs :: "(nat \<times> string list) list" and m
  proof (induction bs arbitrary: m)
    case Nil
    then show ?case by simp
  next
    case (Cons b bs)
    have "\<And>t d. (m ++ snd (get_worms_batch_worker e b)) t = Some d \<Longrightarrow> P d"
      using Cons.prems(2) worker_invariant [of e "snd b" P "fst b"] assms(1)
      by (auto simp: map_add_Some_iff)
    then show ?case
      using Cons.IH [of "m ++ snd (get_worms_batch_worker e b)"] Cons.prems(1) by simp
  qed
  have seq: "fold (\<lambda>b lk. sequential_batch e (snd b) lk) bs m t = Some d \<Longrightarrow>
      (\<And>t d. m t = Some d \<Longrightarrow> P d) \<Longrightarrow> P d" for bs :: "(nat \<times> string list) list" and m
  proof (induction bs arbitrary: m)
    case Nil
    then show ?case by simp
  next
    case (Cons b bs)
    have "\<And>t d. sequential_batch e (snd b) m t = Some d \<Longrightarrow> P d"
      using sequential_invariant [of m P e "snd b"] Cons.prems(2) assms(1) by blast
    then show ?case
      using Cons.IH [of "sequential_batch e (snd b) m"] Cons.prems(1) by simp
  qed
  show ?thesis
    using assms(2) par [of "batch_data_of terms" Map.empty] seq [of "batch_data_of terms" Map.empty]
    by (auto simp: build_batch_lookup_def Let_def split: if_splits)
qed

lemma worker_success:
  assumes "has_key (snd (get_worms_classification_by_id_worker e i api)) ''scientificName''"
  obtains rec where "aphiaRecordByAphiaID e i = Inr (Some rec)"
    and "dget rec ''status'' = PyStr ''accepted''"
    and "snd (get_worms_classification_by_id_worker e i api) =
           rank_fields rec
             [(''scientificName'', dget rec ''scientificname''),
              (''scientificNameID'', dget rec ''lsid''),
              (''taxonRank'', dget rec ''rank''),
              (''nameAccordingTo'', PyStr api),
              (''match_type_debug'', PyStr (''Success_AphiaID_'' @ str_int i))]"
  using assms
  by (auto simp: get_worms_classification_by_id_worker_def Let_def has_key_def
        split: sum.splits option.splits if_splits)

lemma fast_path_record_shape:
  assumes "fast_path_record api k = Some r"
  obtains label cleaned where "r = incertae_sedis_record api label cleaned"
  using assms
  by (auto simp: fast_path_record_def Let_def split: prod.splits if_splits)

lemma complete_final_record:
  "complete_record (final_record e p df k)"
proof -
  have fast: "complete_record r" if "fast_path_record (api_source_of p) k = Some r" for r
    using that by (auto elim!: fast_path_record_shape simp: complete_incertae_sedis)
  have st1: "complete_record r" if "stage1_record e p k = Some r" for r
  proof -
    from that obtain i where
      key: "has_key (snd (get_worms_classification_by_id_worker e i (api_source_of p))) ''scientificName''"
      and r: "r = with_cleaned_taxonomy (snd (get_worms_classification_by_id_worker e i (api_source_of p))) k"
      by (auto simp: stage1_record_def Let_def split: if_splits option.splits)
    from key obtain rec where
      "snd (get_worms_classification_by_id_worker e i (api_source_of p)) =
         rank_fields rec
           [(''scientificName'', dget rec ''scientificname''),
            (''scientificNameID'', dget rec ''lsid''),
            (''taxonRank'', dget rec ''rank''),
            (''nameAccordingTo'', PyStr (api_source_of p)),
            (''match_type_debug'', PyStr (''Success_AphiaID_'' @ str_int i))]"
      by (rule worker_success)
    then have "complete_record (snd (get_worms_classification_by_id_worker e i (api_source_of p)))"
      by (intro complete_recordI) (simp_all add: has_key_rank_fields has_key_Cons)
    then show ?thesis
      unfolding r by (cases k) (simp add: with_cleaned_taxonomy_def complete_update)
  qed
  have st2: "complete_record r" if "stage2_record e p um k = Some r" for r um
  proof -
    from that obtain lk where lk: "lk = build_batch_lookup e (all_terms_of e um)"
      and "match_key p lk k = Some r"
      by (auto simp: stage2_record_def split: if_splits)
    then obtain ts t entry where "lk t = Some entry"
      and r: "r = batch_match_record (api_source_of p) entry t (cleaned_taxonomy_of ts (fst k))"
      by (auto elim!: match_key_Some)
    then have "complete_record entry"
      using build_batch_lookup_invariant [of e complete_record "all_terms_of e um" t entry]
      by (simp add: lk complete_batch_res)
    then show ?thesis
      unfolding r by (rule complete_batch_match_record)
  qed
  have last: "complete_record (no_match_record p k)"
    by (cases k) (simp add: no_match_record_def Let_def complete_incertae_sedis)
  show ?thesis
    using fast st1 st2 last
    by (auto simp: final_record_def split: option.splits)
qed

lemma named_final_record:
  assumes "service_names_present e"
  shows "named_record (final_record e p df k)"
proof -
  have fast: "named_record r" if "fast_path_record (api_source_of p) k = Some r" for r
    using that by (auto elim!: fast_path_record_shape simp: named_incertae_sedis)
  have st1: "named_record r" if "stage1_record e p k = Some r" for r
  proof -
    from that obtain i where
      key: "has_key (snd (get_worms_classification_by_id_worker e i (api_source_of p))) ''scientificName''"
      and r: "r = with_cleaned_taxonomy (snd (get_worms_classification_by_id_worker e i (api_source_of p))) k"
      by (auto simp: stage1_record_def Let_def split: if_splits option.splits)
    from key obtain rec where fetched: "aphiaRecordByAphiaID e i = Inr (Some rec)"
      "dget rec ''status'' = PyStr ''accepted''"
      and w: "snd (get_worms_classification_by_id_worker e i (api_source_of p)) =
         rank_fields rec
           [(''scientificName'', dget rec ''scientificname''),
            (''scientificNameID'', dget rec ''lsid''),
            (''taxonRank'', dget rec ''rank''),
            (''nameAccordingTo'', PyStr (api_source_of p)),
            (''match_type_debug'', PyStr (''Success_AphiaID_'' @ str_int i))]"
      by (rule worker_success)
    from assms fetched obtain s where "dget rec ''scientificname'' = PyStr s"
      unfolding service_names_present_def by blast
    then have "named_record (snd (get_worms_classification_by_id_worker e i (api_source_of p)))"
      by (simp add: w named_record_def dget_rank_fields_name dget_Cons)
    then show ?thesis
      unfolding r by (cases k) (simp add: with_cleaned_taxonomy_def named_update)
  qed
  have st2: "named_record r" if "stage2_record e p um k = Some r" for r um
  proof -
    from that obtain lk where lk: "lk = build_batch_lookup e (all_terms_of e um)"
      and "match_key p lk k = Some r"
      by (auto simp: stage2_record_def split: if_splits)
    then obtain ts t entry where entry: "lk t = Some entry"
      and r: "r = batch_match_record (api_source_of p) entry t (cleaned_taxonomy_of ts (fst k))"
      by (auto elim!: match_key_Some)
    have "named_record (batch_res match)"
      if "aphiaRecordsByMatchNames e chunk = Inr raw" and "name_list \<in> set raw"
        and "first_accepted name_list = Some match" for chunk raw name_list match
    proof -
      from assms that first_accepted_Some [OF that(3)]
      obtain s where "dget match ''scientificname'' = PyStr s"
        unfolding service_names_present_def by blast
      then show ?thesis by (rule named_batch_res)
    qed
    then have "named_record entry"
      using build_batch_lookup_invariant [of e named_record "all_terms_of e um" t entry] entry
      by (simp add: lk)
    then show ?thesis
      unfolding r by (rule named_batch_match_record)
  qed
  have last: "named_record (no_match_record p k)"
    by (cases k) (simp add: no_match_record_def Let_def named_incertae_sedis)
  show ?thesis
    using fast st1 st2 last
    by (auto simp: final_record_def split: option.splits)
qed

lemma named_record_iff:
  "named_record d \<longleftrightarrow> (\<exists>s. dget d ''scientificName'' = PyStr s)"
  by (auto simp: named_record_def split: pyval.splits)

lemma complete_truly_empty:
  "complete_record (truly_empty_record p)" "named_record (truly_empty_record p)"
  by (simp_all add: truly_empty_record_def complete_incertae_sedis named_incertae_sedis)

text \<open>
  Claim C1, corrected. After the function returns, the result has one row for each row
  of the input, in the same order, and every row, whatever its verbatimIdentification and
  assay, carries a record in which the key \<open>scientificName\<close> and the seven standard rank
  keys are present (the values may be null). The scientificName of the record is a string
  provided that every accepted record returned by the remote service carries a
  \<open>scientificname\<close> that is a string.
\<close>

theorem C1_totality_of_assembly:
  assumes "get_worms_match_for_dataframe e p
             \<lparr>verbatimIdentification_dtype = d, rows = df\<rparr> = Inr out"
    and "i < length df"
  shows
    "length out = length df \<and>
     (\<exists>rec. out ! i = (df ! i, Some rec) \<and>
        list_all (has_key rec) (''scientificName'' # DWC_RANKS_STD) \<and>
        (service_names_present e \<longrightarrow> (\<exists>s. dget rec ''scientificName'' = PyStr s)))"
proof (cases "empty_verbatim_mask (df ! i)")
  case True
  show ?thesis
    using run_row_sentinel [OF assms True] run_length [OF assms(1)] complete_truly_empty [of p]
    by (simp add: complete_record_def named_record_iff)
next
  case False
  show ?thesis
    using run_row_key [OF assms False] run_length [OF assms(1)]
      complete_final_record [of e p df "(verbatimIdentification (df ! i), assay_name (df ! i))"]
      named_final_record [of e p df "(verbatimIdentification (df ! i), assay_name (df ! i))"]
    by (simp add: complete_record_def named_record_iff)
qed

text \<open>The theorem at row 7 of the small run, whose service names every accepted record.\<close>

theorem C1_totality_of_assembly_witness:
  "service_names_present example_env \<and>
   (\<exists>out rec.
      get_worms_match_for_dataframe example_env example_params
        \<lparr>verbatimIdentification_dtype = object_dtype, rows = example_df\<rparr> = Inr out \<and>
      length out = 12 \<and>
      out ! 7 = (example_df ! 7, Some rec) \<and>
      list_all (has_key rec) (''scientificName'' # DWC_RANKS_STD) \<and>
      (\<exists>s. dget rec ''scientificName'' = PyStr s))"
proof -
  have names: "service_names_present example_env"
    by (auto simp: service_names_present_def example_env_def example_record_def dget_def
          split: if_splits)
  have "\<not> pool_fails_stage1 example_env"
    by (simp add: example_env_def)
  then obtain out where
    run: "get_worms_match_for_dataframe example_env example_params
        \<lparr>verbatimIdentification_dtype = object_dtype, rows = example_df\<rparr> = Inr out"
    using run_returns by blast
  have len: "7 < length example_df" "length example_df = 12"
    by (simp_all add: example_df_def)
  show ?thesis
    using C1_totality_of_assembly [OF run len(1)] run names len(2)
    by auto
qed

text \<open>
  Claim C1 as stated fails: when the service returns an accepted candidate without a
  \<open>scientificname\<close>, the row that matches it carries a null scientificName.
\<close>

theorem C1_null_scientific_name:
  "get_worms_match_for_dataframe nameless_env shallow_params
        \<lparr>verbatimIdentification_dtype = object_dtype, rows = nameless_df\<rparr> =
     Inr [(\<lparr> verbatimIdentification = PyStr ''Bacteria'', assay_name = ''B18S'' \<rparr>,
           Some (batch_match_record ''WoRMS'' (batch_res [(''status'', PyStr ''accepted'')])
                   ''Bacteria'' (PyStr ''Bacteria'')))] \<and>
   dget (batch_match_record ''WoRMS'' (batch_res [(''status'', PyStr ''accepted'')])
           ''Bacteria'' (PyStr ''Bacteria'')) ''scientificName'' = PyNone"
  by code_simp

subsection \<open>Deduplication\<close>

lemma filter_eq_distinct:
  "distinct xs \<Longrightarrow> length (filter (\<lambda>x. x = k) xs) = (if k \<in> set xs then 1 else 0)"
  by (induction xs) auto

lemma filter_at_most_one:
  assumes "distinct xs" and "\<And>x y. x \<in> set xs \<Longrightarrow> y \<in> set xs \<Longrightarrow> P x \<Longrightarrow> P y \<Longrightarrow> x = y"
  shows "length (filter P xs) \<le> 1"
  using assms
proof (induction xs)
  case Nil
  then show ?case by simp
next
  case (Cons x xs)
  have rest: "length (filter P xs) \<le> 1"
    using Cons by auto
  show ?case
  proof (cases "P x")
    case True
    have "filter P xs = []"
      using Cons.prems True by (auto simp: filter_empty_conv)
    with True show ?thesis by simp
  next
    case False
    with rest show ?thesis by simp
  qed
qed

lemma tuples_to_process_distinct:
  "distinct (tuples_to_process p df)"
  by (simp add: tuples_to_process_eq unique_tuples_distinct)

lemma stage1_lookups_count:
  assumes "distinct todo"
  shows "length (filter (\<lambda>l. fst l = k) (stage1_lookups p todo)) =
           (if pr2_worms_dict p \<noteq> [] \<and> k \<in> set todo \<and> consults_dictionary p k then 1 else 0)"
proof (cases "pr2_worms_dict p = []")
  case True
  then show ?thesis by (simp add: stage1_lookups_def)
next
  case False
  let ?consulted = "filter (consults_dictionary p) todo"
  have lookups: "stage1_lookups p todo =
      map (\<lambda>k. (k, last (parse_semicolon_taxonomy (fst k)))) ?consulted"
    using False by (simp add: stage1_lookups_def prematch_loop_lookups)
  have "length (filter (\<lambda>l. fst l = k)
            (map (\<lambda>k. (k, last (parse_semicolon_taxonomy (fst k)))) ?consulted)) =
        length (filter (\<lambda>x. x = k) ?consulted)"
    by (simp only: filter_map comp_def fst_conv length_map)
  also have "\<dots> = (if k \<in> set ?consulted then 1 else 0)"
    by (rule filter_eq_distinct) (simp add: assms)
  also have "\<dots> = (if k \<in> set todo \<and> consults_dictionary p k then 1 else 0)"
    by auto
  finally have "length (filter (\<lambda>l. fst l = k) (stage1_lookups p todo)) =
      (if k \<in> set todo \<and> consults_dictionary p k then 1 else 0)"
    unfolding lookups .
  with False show ?thesis by simp
qed

lemma stage1_fetches_distinct:
  "distinct (stage1_fetches p todo)"
  using prematch_loop_distinct [of "[]" p todo "[]" "[]"]
  by (simp add: stage1_fetches_def stage1_groups_def)

lemma stage1_groups_member:
  "k \<in> set (group_of (stage1_groups p todo) i) \<Longrightarrow> prematch_target p k = Some i"
  by (auto simp: stage1_groups_def prematch_groups group_of_Nil split: if_splits)

text \<open>
  Claim C3, corrected. Take two rows of the dataset (of any number) with the same
  verbatimIdentification and the same assay. After the function returns they carry the
  same record, and they have one. Their pair occurs at most once in the list of unique
  tuples and in the list of tuples handed to the stages, which each stage traverses once.
  The local dictionary is consulted for the pair at most once, and exactly once only when
  the dictionary is not empty, the pair is handed to the stages, its assay does not skip
  species and its normalized lineage is not empty. The identifiers fetched from the remote
  service are distinct, and at most one of them is fetched for the group of the pair.
\<close>

theorem C3_deduplication:
  assumes "get_worms_match_for_dataframe e p
             \<lparr>verbatimIdentification_dtype = d, rows = df\<rparr> = Inr out"
    and "i < length df" and "j < length df"
    and "verbatimIdentification (df ! i) = verbatimIdentification (df ! j)"
    and "assay_name (df ! i) = assay_name (df ! j)"
    and "k = (verbatimIdentification (df ! i), assay_name (df ! i))"
    and "todo = tuples_to_process p df"
  shows
    "snd (out ! i) = snd (out ! j) \<and> snd (out ! i) \<noteq> None \<and>
     length (filter (\<lambda>x. x = k) (unique_tuples df)) \<le> 1 \<and>
     length (filter (\<lambda>x. x = k) todo) \<le> 1 \<and>
     length (filter (\<lambda>l. fst l = k) (stage1_lookups p todo)) \<le> 1 \<and>
     (length (filter (\<lambda>l. fst l = k) (stage1_lookups p todo)) = 1 \<longleftrightarrow>
        pr2_worms_dict p \<noteq> [] \<and> k \<in> set todo \<and>
        snd k \<notin> set (assays_to_skip_species p) \<and> parse_semicolon_taxonomy (fst k) \<noteq> []) \<and>
     distinct (stage1_fetches p todo) \<and>
     length (filter (\<lambda>aphia_id. k \<in> set (group_of (stage1_groups p todo) aphia_id))
               (stage1_fetches p todo)) \<le> 1"
proof -
  from assms(1) obtain C where C: "results_cache_of e p df = Inr C"
    and out: "out = map (\<lambda>r. (r, C (map_key_of r))) df"
    by (rule run_Inr)
  have "map_key_of (df ! i) = map_key_of (df ! j)"
    using assms(4,5) by (simp add: map_key_of_def empty_verbatim_mask_def)
  then have same: "snd (out ! i) = snd (out ! j)"
    using assms(2,3) by (simp add: out)
  have some: "snd (out ! i) \<noteq> None"
    using run_row_key [OF assms(1,2)] run_row_sentinel [OF assms(1,2)]
    by (cases "empty_verbatim_mask (df ! i)") simp_all
  have todo: "distinct todo"
    by (simp add: assms(7) tuples_to_process_distinct)
  have once: "length (filter (\<lambda>x. x = k) (unique_tuples df)) \<le> 1"
    "length (filter (\<lambda>x. x = k) todo) \<le> 1"
    using todo by (simp_all add: filter_eq_distinct unique_tuples_distinct)
  note count = stage1_lookups_count [OF todo, of k p]
  have fetch: "length (filter (\<lambda>aphia_id. k \<in> set (group_of (stage1_groups p todo) aphia_id))
                 (stage1_fetches p todo)) \<le> 1"
  proof (rule filter_at_most_one [OF stage1_fetches_distinct])
    fix x y
    assume "k \<in> set (group_of (stage1_groups p todo) x)"
      and "k \<in> set (group_of (stage1_groups p todo) y)"
    then show "x = y"
      using stage1_groups_member [of k p todo x] stage1_groups_member [of k p todo y] by simp
  qed
  show ?thesis
    using same some once count fetch stage1_fetches_distinct [of p todo]
    by (auto simp: consults_dictionary_def split: if_splits)
qed

text \<open>The theorem at rows 6 and 10 of the small run, both \<open>Bacteria\<close> of the assay
  \<open>B18S\<close>.\<close>

theorem C3_deduplication_witness:
  "\<exists>out. get_worms_match_for_dataframe example_env example_params
        \<lparr>verbatimIdentification_dtype = object_dtype, rows = example_df\<rparr> = Inr out \<and>
     snd (out ! 6) = snd (out ! 10) \<and> snd (out ! 6) \<noteq> None \<and>
     length (filter (\<lambda>x. x = (PyStr ''Bacteria'', ''B18S'')) (unique_tuples example_df)) \<le> 1 \<and>
     length (filter (\<lambda>l. fst l = (PyStr ''Bacteria'', ''B18S''))
               (stage1_lookups example_params (tuples_to_process example_params example_df)))
       \<le> 1"
proof -
  have "\<not> pool_fails_stage1 example_env"
    by (simp add: example_env_def)
  then obtain out where
    run: "get_worms_match_for_dataframe example_env example_params
        \<lparr>verbatimIdentification_dtype = object_dtype, rows = example_df\<rparr> = Inr out"
    using run_returns by blast
  have len: "6 < length example_df" "10 < length example_df"
    by (simp_all add: example_df_def)
  have rows: "verbatimIdentification (example_df ! 6) = verbatimIdentification (example_df ! 10)"
    "assay_name (example_df ! 6) = assay_name (example_df ! 10)"
    "(PyStr ''Bacteria'', ''B18S'')
       = (verbatimIdentification (example_df ! 6), assay_name (example_df ! 6))"
    by (simp_all add: example_df_def)
  show ?thesis
    using C3_deduplication [OF run len rows refl] run
    by blast
qed

text \<open>
  Claim C3 as stated fails: for two rows that share a pair whose assay skips species, the
  pair is handed to the stages and the local dictionary, which holds its most specific
  term, is not consulted at all, so there is not exactly one local-dictionary lookup.
\<close>

theorem C3_no_lookup_for_skipped_assay:
  "twin_df ! 0 = twin_df ! 1 \<and>
   tuples_to_process example_params twin_df = [(PyStr ''Bacteria;Oldname'', ''A16S'')] \<and>
   map_of (pr2_worms_dict example_params)
     (last (parse_semicolon_taxonomy (PyStr ''Bacteria;Oldname''))) = Some 8 \<and>
   stage1_lookups example_params (tuples_to_process example_params twin_df) = []"
  by code_simp

end
